theory Spec2Isabelle
  imports Complex_Main
begin

section \<open>Python values shared by the scripts\<close>

text \<open>
  Strings are lists of 8-bit characters. The exceptions that the modelled functions raise
  are values of the type \<open>error\<close>; a function that can raise returns \<open>error + 'a\<close>
  with \<open>Inl\<close> the exception.
\<close>

datatype error = ValueError | IndexError | RequestException | RuntimeError

text \<open>\<open>str.isspace\<close> on the ASCII range: TAB, LF, VT, FF, CR, FS, GS, RS, US and space.\<close>

definition isspace :: "char \<Rightarrow> bool" where
  "isspace c = (c = CHR 0x09 \<or> c = CHR 0x0A \<or> c = CHR 0x0B \<or> c = CHR 0x0C \<or> c = CHR 0x0D
     \<or> c = CHR 0x1C \<or> c = CHR 0x1D \<or> c = CHR 0x1E \<or> c = CHR 0x1F \<or> c = CHR 0x20)"

text \<open>\<open>s.strip()\<close>: whitespace removed at both ends.\<close>

definition strip :: "string \<Rightarrow> string" where
  "strip s = rev (dropWhile isspace (rev (dropWhile isspace s)))"

text \<open>
  \<open>range(i, stop, step)\<close> for a positive step, as the list of its values. Python raises
  \<open>ValueError\<close> for step 0; that case is decided by the callers below, and the guard
  \<open>step = 0\<close> here only makes the recursion total.
\<close>

function range_from :: "nat \<Rightarrow> nat \<Rightarrow> nat \<Rightarrow> nat list" where
  "range_from i stop step =
     (if step = 0 \<or> stop \<le> i then [] else i # range_from (i + step) stop step)"
  by pat_completeness auto
termination by (relation "measure (\<lambda>(i, stop, step). stop - i)") auto

declare range_from.simps [simp del]

text \<open>\<open>str(i)\<close> for an integer: its decimal digits, with a leading minus sign when negative.\<close>

definition digit_char :: "nat \<Rightarrow> char" where
  "digit_char d = ''0123456789'' ! d"

function str_nat :: "nat \<Rightarrow> string" where
  "str_nat n = (if n < 10 then [digit_char n] else str_nat (n div 10) @ [digit_char (n mod 10)])"
  by pat_completeness auto
termination by (relation "measure id") auto

declare str_nat.simps [simp del]

definition str_int :: "int \<Rightarrow> string" where
  "str_int i = (if i < 0 then CHR ''-'' # str_nat (nat (- i)) else str_nat (nat i))"

text \<open>The value of a decimal digit character, used to read digit strings back.\<close>

definition digit_val :: "char \<Rightarrow> nat" where
  "digit_val c = of_char c - 48"

text \<open>
  A Python \<open>dict\<close> is an association list with distinct keys in insertion order:
  \<open>d[k] = v\<close> replaces the value of an existing key in place and appends a new key.
  \<open>dict_of\<close> is the dict built by inserting the given pairs in order, as a dict
  comprehension does; \<open>map_of\<close> is the lookup.
\<close>

fun dict_set :: "'k \<Rightarrow> 'v \<Rightarrow> ('k \<times> 'v) list \<Rightarrow> ('k \<times> 'v) list" where
  "dict_set k v [] = [(k, v)]"
| "dict_set k v ((k', v') # d) = (if k' = k then (k', v) # d else (k', v') # dict_set k v d)"

definition dict_of :: "('k \<times> 'v) list \<Rightarrow> ('k \<times> 'v) list" where
  "dict_of kvs = foldl (\<lambda>d (k, v). dict_set k v d) [] kvs"

section \<open>Chunking of key lists\<close>

text \<open>
  014.Analytics_base.py, \<open>chunks(lst, n)\<close>: the generator
  \<open>for i in range(0, len(lst), n): yield lst[i:i + n]\<close>, read to its end.
  \<open>range\<close> raises \<open>ValueError\<close> for \<open>n = 0\<close> and is empty for a negative \<open>n\<close>.
\<close>

definition chunks :: "'a list \<Rightarrow> int \<Rightarrow> error + 'a list list" where
  "chunks lst n =
     (if n = 0 then Inl ValueError
      else if n < 0 then Inr []
      else Inr (map (\<lambda>i. take (nat n) (drop i lst)) (range_from 0 (length lst) (nat n))))"

text \<open>
  006.Stock_FBO_FBS.py, the module-level list
  \<open>[product_ids[i:i + 1000] for i in range(0, len(product_ids), 1000)] if product_ids else []\<close>.
\<close>

definition chunks_006 :: "'a list \<Rightarrow> 'a list list" where
  "chunks_006 product_ids =
     (if product_ids \<noteq> []
      then map (\<lambda>i. take 1000 (drop i product_ids)) (range_from 0 (length product_ids) 1000)
      else [])"

section \<open>Credential files\<close>

text \<open>
  A credential file is given by the result of \<open>file.readlines()\<close>: its lines, each with
  its line terminator. Opening the file is outside the model.
\<close>

text \<open>
  001.Product_offer_id.py, \<open>read_api_credentials\<close>: blank lines are dropped, the
  remaining lines are stripped; with fewer than four of them \<open>ValueError\<close> is raised
  (the \<open>except\<close> clause prints and re-raises). The result is
  \<open>(api_key, client_id, spreadsheet_id, sheet_name)\<close>.
\<close>

definition read_api_credentials :: "string list \<Rightarrow> error + (string \<times> string \<times> string \<times> string)" where
  "read_api_credentials file_lines =
     (let lines = map strip (filter (\<lambda>line. strip line \<noteq> []) file_lines) in
      if length lines \<ge> 4
      then Inr (lines ! 1, lines ! 0, lines ! 2, lines ! 3)
      else Inl ValueError)"

text \<open>The dict returned by \<open>read_api_config\<close> of 014.Analytics_base.py.\<close>

record api_config =
  client_id :: string
  api_key :: string
  spreadsheet_id :: string
  sheet_name :: string

text \<open>
  014.Analytics_base.py, \<open>read_api_config\<close>: every line is stripped and none is
  dropped; \<open>ValueError\<close> is raised when the file has fewer than four lines.
\<close>

definition read_api_config :: "string list \<Rightarrow> error + api_config" where
  "read_api_config file_lines =
     (let lines = map strip file_lines in
      if length lines < 4 then Inl ValueError
      else Inr \<lparr>client_id = lines ! 0, api_key = lines ! 1,
                spreadsheet_id = lines ! 2, sheet_name = lines ! 3\<rparr>)"

text \<open>
  006.Stock_FBO_FBS.py, \<open>read_api_credentials\<close>: the first four lines are indexed
  without any check, so a shorter file raises \<open>IndexError\<close> at the first missing line.
  The result is \<open>(client_id, api_key, sheet_id, sheet_name)\<close>.
\<close>

definition read_api_credentials_006 :: "string list \<Rightarrow> error + (string \<times> string \<times> string \<times> string)" where
  "read_api_credentials_006 lines =
     (if length lines \<le> 0 then Inl IndexError
      else if length lines \<le> 1 then Inl IndexError
      else if length lines \<le> 2 then Inl IndexError
      else if length lines \<le> 3 then Inl IndexError
      else Inr (strip (lines ! 0), strip (lines ! 1), strip (lines ! 2), strip (lines ! 3)))"

section \<open>014.Analytics_base.py: aligning query metrics with the sheet rows\<close>

text \<open>
  The \<open>sku\<close> field of a fetched item is a JSON number or a JSON string; \<open>None\<close>
  stands for a missing or null field. \<open>py_str_sku\<close> is \<open>str(...)\<close> of such a value and
  \<open>sku_truthy\<close> is its truth value in \<open>if it.get('sku')\<close>.
\<close>

datatype sku_value = SkuInt int | SkuStr string

fun py_str_sku :: "sku_value \<Rightarrow> string" where
  "py_str_sku (SkuInt i) = str_int i"
| "py_str_sku (SkuStr s) = s"

fun sku_truthy :: "sku_value option \<Rightarrow> bool" where
  "sku_truthy None = False"
| "sku_truthy (Some (SkuInt i)) = (i \<noteq> 0)"
| "sku_truthy (Some (SkuStr s)) = (s \<noteq> [])"

text \<open>
  An item of the product-queries response. The five metrics are copied to the sheet
  unchanged, so their values are of an arbitrary type \<open>'v\<close>; \<open>None\<close> is a missing key.
\<close>

record 'v query_item =
  q_sku :: "sku_value option"
  unique_search_users :: "'v option"
  position :: "'v option"
  unique_view_users :: "'v option"
  view_conversion :: "'v option"
  gmv :: "'v option"

text \<open>A written cell: the empty string \<open>''\<close> (\<open>Blank\<close>) or a value of the item.\<close>

datatype 'v cell = Blank | Value 'v

text \<open>\<open>it.get(field, '')\<close>.\<close>

fun get_or_blank :: "'v option \<Rightarrow> 'v cell" where
  "get_or_blank None = Blank"
| "get_or_blank (Some v) = Value v"

text \<open>
  One element of \<open>updates\<close>: \<open>{'range': f"FX{row}:GB{row}", 'values': [values]}\<close>, kept as
  the row number of its range and its single row of values.
\<close>

record 'v row_update =
  range_row :: nat
  row_values :: "'v cell list"

text \<open>
  \<open>str(it.get('sku', '')).strip()\<close>, the key of an item in \<open>sku_data\<close>. Only items with
  a truthy \<open>sku\<close> are entered, so the case \<open>None\<close> is never used.
\<close>

definition sku_key :: "'v query_item \<Rightarrow> string" where
  "sku_key it = (case q_sku it of None \<Rightarrow> [] | Some v \<Rightarrow> strip (py_str_sku v))"

text \<open>
  \<open>sku_to_row = {sku: idx + 5 for idx, sku in enumerate(sku_col) if sku.strip()}\<close>, where
  \<open>sku_col\<close> is column B from row 5 on. The key is the cell text as read, not stripped.
\<close>

definition sku_to_row_of :: "string list \<Rightarrow> (string \<times> nat) list" where
  "sku_to_row_of sku_col =
     dict_of [(sku, idx + 5). (idx, sku) \<leftarrow> enumerate 0 sku_col, strip sku \<noteq> []]"

text \<open>\<open>sku_data = {str(it.get('sku', '')).strip(): it for it in all_items if it.get('sku')}\<close>.\<close>

definition sku_data_of :: "'v query_item list \<Rightarrow> (string \<times> 'v query_item) list" where
  "sku_data_of all_items = dict_of [(sku_key it, it). it \<leftarrow> all_items, sku_truthy (q_sku it)]"

text \<open>
  \<open>main\<close>, from the key column and the fetched items to the list \<open>updates\<close> handed to
  \<open>sheet.batch_update\<close>: nothing when the stripped SKU list is empty, otherwise one
  update per entry of \<open>sku_to_row\<close>, in the order of the dict.
\<close>

definition main_updates :: "string list \<Rightarrow> 'v query_item list \<Rightarrow> 'v row_update list" where
  "main_updates sku_col all_items =
     (let skus = map strip (filter (\<lambda>sku. strip sku \<noteq> []) sku_col);
          sku_to_row = sku_to_row_of sku_col in
      if skus = [] then []
      else
        let sku_data = sku_data_of all_items in
        foldl (\<lambda>updates (sku, row).
            let values =
              (case map_of sku_data sku of
                 Some it \<Rightarrow> [get_or_blank (unique_search_users it), get_or_blank (position it),
                             get_or_blank (unique_view_users it), get_or_blank (view_conversion it),
                             get_or_blank (gmv it)]
               | None \<Rightarrow> replicate 5 Blank)
            in updates @ [\<lparr>range_row = row, row_values = values\<rparr>])
          [] sku_to_row)"

text \<open>The pairs that the comprehension of \<open>sku_to_row\<close> inserts, in order.\<close>

definition key_rows :: "string list \<Rightarrow> (string \<times> nat) list" where
  "key_rows sku_col = [(sku, idx + 5). (idx, sku) \<leftarrow> enumerate 0 sku_col, strip sku \<noteq> []]"

section \<open>006.Stock_FBO_FBS.py: stock sums per product\<close>

text \<open>
  An item of the stocks response is indexed with \<open>item['product_id']\<close> and
  \<open>item['stocks']\<close>, and each stock entry with \<open>stock['type']\<close> and
  \<open>stock['present']\<close>: the fields are required, and are typed as the API returns them.
\<close>

record stock =
  stock_type :: string
  present :: int

record stock_item =
  product_id :: int
  stocks :: "stock list"

text \<open>
  \<open>update_google_sheet(data, product_ids)\<close>, as the two columns \<open>(rows_fbo, rows_fbs)\<close>
  that it writes from row 5 on to columns R and S.
\<close>

definition update_google_sheet :: "stock_item list \<Rightarrow> int list \<Rightarrow> int list list \<times> int list list" where
  "update_google_sheet data_items product_ids =
     (let stock_dict = dict_of (map (\<lambda>item. (str_int (product_id item), stocks item)) data_items) in
      foldl (\<lambda>(rows_fbo, rows_fbs) pid.
          let stocks = (case map_of stock_dict (str_int pid) of Some s \<Rightarrow> s | None \<Rightarrow> []);
              (fbo_stock, fbs_stock) =
                 foldl (\<lambda>(fbo_stock, fbs_stock) stock.
                     if stock_type stock = ''fbo'' then (fbo_stock + present stock, fbs_stock)
                     else if stock_type stock = ''fbs'' then (fbo_stock, fbs_stock + present stock)
                     else (fbo_stock, fbs_stock))
                   (0, 0) stocks
          in (rows_fbo @ [[fbo_stock]], rows_fbs @ [[fbs_stock]]))
        ([], []) product_ids)"

text \<open>The sum of \<open>present\<close> over the stock entries of one type.\<close>

definition sum_present :: "string \<Rightarrow> stock list \<Rightarrow> int" where
  "sum_present t ss = sum_list (map present (filter (\<lambda>s. stock_type s = t) ss))"

text \<open>
  The stock entries of a product: those of the last fetched item with this
  \<open>product_id\<close>, and none when no fetched item has it.
\<close>

definition stocks_of :: "stock_item list \<Rightarrow> int \<Rightarrow> stock list" where
  "stocks_of data_items pid =
     (case find (\<lambda>item. product_id item = pid) (rev data_items) of
        None \<Rightarrow> [] | Some item \<Rightarrow> stocks item)"

section \<open>008.FBO_Upravlenie_stocks.py: export rows of the stock analytics\<close>

text \<open>
  A numeric field of a fetched item: a JSON integer, a JSON float, or a value on which
  \<open>int(v)\<close> and \<open>float(v)\<close> raise \<open>TypeError\<close> or \<open>ValueError\<close> (a list, a dict, a
  string that is not a number). A float is the real number that it denotes; infinities
  and NaN are not values of a JSON document. \<open>None\<close> is a missing or null field.
\<close>

datatype jvalue = JInt int | JFloat real | JUnconvertible

text \<open>
  \<open>_as_int_or_none\<close>: \<open>int(v)\<close> truncates a float towards zero; the exceptions are caught
  and give \<open>None\<close>.
\<close>

fun as_int_or_none :: "jvalue option \<Rightarrow> int option" where
  "as_int_or_none None = None"
| "as_int_or_none (Some (JInt i)) = Some i"
| "as_int_or_none (Some (JFloat r)) = Some (if 0 \<le> r then \<lfloor>r\<rfloor> else \<lceil>r\<rceil>)"
| "as_int_or_none (Some JUnconvertible) = None"

text \<open>\<open>_as_float_or_none\<close>.\<close>

fun as_float_or_none :: "jvalue option \<Rightarrow> real option" where
  "as_float_or_none None = None"
| "as_float_or_none (Some (JInt i)) = Some (of_int i)"
| "as_float_or_none (Some (JFloat r)) = Some r"
| "as_float_or_none (Some JUnconvertible) = None"

text \<open>
  \<open>_to_sheet_cell\<close>: \<open>""\<close> for \<open>None\<close>, otherwise \<open>str(value)\<close>; the function is used on
  integers and on strings, so \<open>str\<close> is its first argument here.
\<close>

definition to_sheet_cell :: "('a \<Rightarrow> string) \<Rightarrow> 'a option \<Rightarrow> string" where
  "to_sheet_cell str_of v = (case v of None \<Rightarrow> [] | Some x \<Rightarrow> str_of x)"

text \<open>\<open>_to_sheet_cell_blank_if_zero\<close>: \<open>""\<close> for \<open>None\<close> and for 0.\<close>

definition to_sheet_cell_blank_if_zero :: "int option \<Rightarrow> string" where
  "to_sheet_cell_blank_if_zero v = (if v = None \<or> v = Some 0 then [] else str_int (the v))"

text \<open>The nearest integer, a tie going to the even one.\<close>

definition round_half_even :: "real \<Rightarrow> int" where
  "round_half_even x =
     (let f = \<lfloor>x\<rfloor>; d = x - of_int f in
      if d < 1 / 2 then f else if 1 / 2 < d then f + 1 else if even f then f else f + 1)"

text \<open>
  \<open>round(x, 2)\<close>: the decimal with two places nearest to \<open>x\<close>, a tie going to the even
  last digit.
\<close>

definition py_round2 :: "real \<Rightarrow> real" where
  "py_round2 x = of_int (round_half_even (x * 100)) / 100"

text \<open>
  \<open>f"{x:.2f}"\<close>: the sign, the integer digits, a point and the two decimals of the
  nearest decimal with two places.
\<close>

definition format_2f :: "real \<Rightarrow> string" where
  "format_2f x =
     (let h = nat \<bar>round_half_even (x * 100)\<bar> in
      (if x < 0 then ''-'' else []) @ str_nat (h div 100) @ ''.''
        @ [digit_char (h mod 100 div 10), digit_char (h mod 10)])"

text \<open>
  An item of the stocks analytics response, with the fields that
  \<open>build_export_rows\<close> reads through \<open>.get\<close>.
\<close>

record stocks_item =
  st_sku :: "sku_value option"
  return_to_seller_stock_count :: "jvalue option"
  days_without_sales :: "jvalue option"
  idc :: "jvalue option"
  ads :: "jvalue option"
  turnover_grade :: "string option"

text \<open>The empty dict \<open>{}\<close> that \<open>rep_item.get(sku, {})\<close> returns for an unknown SKU.\<close>

definition empty_item :: stocks_item where
  "empty_item = \<lparr>st_sku = None, return_to_seller_stock_count = None, days_without_sales = None,
                  idc = None, ads = None, turnover_grade = None\<rparr>"

text \<open>
  \<open>turnover_grade_ru\<close> and \<open>describe_turnover_grade\<close>: \<open>table.get(grade) if grade else None\<close>.
  The two tables \<open>TURNOVER_GRADE_RU\<close> and \<open>TURNOVER_GRADE_DESCRIPTIONS\<close> hold Cyrillic
  text and are arguments of the functions below.
\<close>

definition grade_lookup :: "(string \<Rightarrow> string option) \<Rightarrow> string option \<Rightarrow> string option" where
  "grade_lookup table grade =
     (case grade of None \<Rightarrow> None | Some g \<Rightarrow> if g = [] then None else table g)"

text \<open>\<open>sku_str = str(it.get("sku")) if it.get("sku") is not None else None\<close>.\<close>

definition sku_str_of :: "stocks_item \<Rightarrow> string option" where
  "sku_str_of it = (case st_sku it of None \<Rightarrow> None | Some v \<Rightarrow> Some (py_str_sku v))"

text \<open>
  One iteration of the first loop of \<open>build_export_rows\<close>: an item without SKU is
  skipped; the first item of a SKU becomes its representative in \<open>rep_item\<close>; the
  return counts that convert to an integer are added up per SKU in \<open>returns_sum\<close>.
\<close>

definition index_step ::
  "(string \<times> stocks_item) list \<times> (string \<times> int) list \<Rightarrow> stocks_item \<Rightarrow>
   (string \<times> stocks_item) list \<times> (string \<times> int) list" where
  "index_step state it =
     (let (rep_item, returns_sum) = state in
      case sku_str_of it of
        None \<Rightarrow> (rep_item, returns_sum)
      | Some sku_str \<Rightarrow>
          if sku_str = [] then (rep_item, returns_sum)
          else
            let rep_item' = (if map_of rep_item sku_str = None
                             then dict_set sku_str it rep_item else rep_item) in
            (case as_int_or_none (return_to_seller_stock_count it) of
               None \<Rightarrow> (rep_item', returns_sum)
             | Some val \<Rightarrow>
                 (case map_of returns_sum sku_str of
                    None \<Rightarrow> (rep_item', dict_set sku_str val returns_sum)
                  | Some s \<Rightarrow> (rep_item', dict_set sku_str (s + val) returns_sum))))"

text \<open>The first loop: \<open>(rep_item, returns_sum)\<close> after all items.\<close>

definition index_items :: "stocks_item list \<Rightarrow> (string \<times> stocks_item) list \<times> (string \<times> int) list" where
  "index_items items = foldl index_step ([], []) items"

text \<open>The body of the second loop: the row of columns AD to AI for one SKU of the sheet.\<close>

definition export_row ::
  "(string \<Rightarrow> string option) \<Rightarrow> (string \<Rightarrow> string option) \<Rightarrow>
   (string \<times> stocks_item) list \<Rightarrow> (string \<times> int) list \<Rightarrow> string \<Rightarrow> string list" where
  "export_row TURNOVER_GRADE_RU TURNOVER_GRADE_DESCRIPTIONS rep_item returns_sum sku =
     (let base = (case map_of rep_item sku of None \<Rightarrow> empty_item | Some it \<Rightarrow> it);
          days = as_int_or_none (days_without_sales base);
          idc_v = as_int_or_none (idc base);
          ads_v = as_float_or_none (ads base);
          turnover_code = turnover_grade base;
          grade_ru = grade_lookup TURNOVER_GRADE_RU turnover_code;
          grade_desc = grade_lookup TURNOVER_GRADE_DESCRIPTIONS turnover_code;
          rts_sum = map_of returns_sum sku;
          ad_days = to_sheet_cell str_int days;
          ae_idc = to_sheet_cell str_int idc_v;
          af_returns = to_sheet_cell_blank_if_zero rts_sum;
          ag_grade_ru = to_sheet_cell id grade_ru;
          ah_grade_desc = to_sheet_cell id grade_desc;
          ai_ads = (case ads_v of
                      None \<Rightarrow> []
                    | Some a \<Rightarrow> let rounded = py_round2 a in
                               if rounded = 0 then ''0'' else format_2f rounded)
      in [ad_days, ae_idc, af_returns, ag_grade_ru, ah_grade_desc, ai_ads])"

text \<open>\<open>build_export_rows(skus, items)\<close>.\<close>

definition build_export_rows ::
  "(string \<Rightarrow> string option) \<Rightarrow> (string \<Rightarrow> string option) \<Rightarrow>
   string list \<Rightarrow> stocks_item list \<Rightarrow> string list list" where
  "build_export_rows TURNOVER_GRADE_RU TURNOVER_GRADE_DESCRIPTIONS skus items =
     (let (rep_item, returns_sum) = index_items items in
      foldl (\<lambda>export_rows sku.
          export_rows @ [export_row TURNOVER_GRADE_RU TURNOVER_GRADE_DESCRIPTIONS rep_item returns_sum sku])
        [] skus)"

section \<open>013.Price_logistic.py: prices and commissions per product\<close>

text \<open>
  The script computes with Python floats. Their arithmetic is not interpreted here: the
  type \<open>'f\<close> of floats and the operations on it are parameters, collected in a record, and
  every statement below holds for all of them. \<open>float_of_str\<close> is \<open>float(s)\<close> for a string,
  \<open>None\<close> when it raises \<open>ValueError\<close>; \<open>fceil\<close> is \<open>math.ceil\<close>; \<open>fzero\<close> tells whether a
  float is falsy, that is, equal to zero.
\<close>

record 'f float_ops =
  float_of_int :: "int \<Rightarrow> 'f"
  float_of_str :: "string \<Rightarrow> 'f option"
  fmul :: "'f \<Rightarrow> 'f \<Rightarrow> 'f"
  fdiv :: "'f \<Rightarrow> 'f \<Rightarrow> 'f"
  fadd :: "'f \<Rightarrow> 'f \<Rightarrow> 'f"
  fceil :: "'f \<Rightarrow> int"
  fzero :: "'f \<Rightarrow> bool"

text \<open>
  A value handed to \<open>safe_float\<close>: null or a missing key, a boolean, an integer, a float,
  a string, or a list or dict (\<open>POther\<close>, on which \<open>float\<close> raises \<open>TypeError\<close>).
\<close>

datatype 'f pvalue = PNull | PBool bool | PInt int | PFloat 'f | PStr string | POther

text \<open>\<open>safe_float\<close>: \<open>float(value)\<close>, and \<open>0.0\<close> for \<open>None\<close> and when the conversion raises.\<close>

fun safe_float :: "'f float_ops \<Rightarrow> 'f pvalue \<Rightarrow> 'f" where
  "safe_float ops PNull = float_of_int ops 0"
| "safe_float ops (PBool b) = float_of_int ops (if b then 1 else 0)"
| "safe_float ops (PInt i) = float_of_int ops i"
| "safe_float ops (PFloat x) = x"
| "safe_float ops (PStr s) = (case float_of_str ops s of Some x \<Rightarrow> x | None \<Rightarrow> float_of_int ops 0)"
| "safe_float ops POther = float_of_int ops 0"

text \<open>The nested dicts of a price item; a missing or null dict is \<open>None\<close>.\<close>

record 'f price_data =
  auto_action_enabled :: "bool option"
  old_price :: "'f pvalue"
  min_price :: "'f pvalue"
  price :: "'f pvalue"
  marketing_seller_price :: "'f pvalue"
  marketing_price :: "'f pvalue"
  net_price :: "'f pvalue"

record 'f commissions =
  sales_percent_fbo :: "'f pvalue"
  sales_percent_fbs :: "'f pvalue"
  fbo_direct_flow_trans_max_amount :: "'f pvalue"
  fbs_direct_flow_trans_max_amount :: "'f pvalue"
  fbo_deliv_to_customer_amount :: "'f pvalue"
  fbs_deliv_to_customer_amount :: "'f pvalue"
  fbo_return_flow_amount :: "'f pvalue"
  fbs_return_flow_amount :: "'f pvalue"

text \<open>
  An item of the prices response. \<open>pr_product_id\<close> is \<open>None\<close> when the item has no key
  \<open>product_id\<close>. \<open>color_index\<close> is \<open>price_indexes['color_index']\<close>. \<open>actions\<close> is
  \<open>marketing_actions['actions']\<close>, \<open>None\<close> when either level is missing or null; an action
  is \<open>None\<close> when the loop skips it (it is falsy or not a dict) and otherwise its title,
  \<open>''\<close> when it has none.
\<close>

record 'f price_item =
  pr_product_id :: "int option"
  price_dict :: "'f price_data option"
  commissions_dict :: "'f commissions option"
  color_index :: "string option"
  actions :: "string option list option"
  acquiring :: "'f pvalue"

text \<open>The dicts \<open>{}\<close> that stand in for a missing \<open>price\<close> and a missing \<open>commissions\<close>.\<close>

definition empty_price_data :: "'f price_data" where
  "empty_price_data = \<lparr>auto_action_enabled = None, old_price = PNull, min_price = PNull,
     price = PNull, marketing_seller_price = PNull, marketing_price = PNull, net_price = PNull\<rparr>"

definition empty_commissions :: "'f commissions" where
  "empty_commissions = \<lparr>sales_percent_fbo = PNull, sales_percent_fbs = PNull,
     fbo_direct_flow_trans_max_amount = PNull, fbs_direct_flow_trans_max_amount = PNull,
     fbo_deliv_to_customer_amount = PNull, fbs_deliv_to_customer_amount = PNull,
     fbo_return_flow_amount = PNull, fbs_return_flow_amount = PNull\<rparr>"

text \<open>
  The literals of \<open>prepare_data_for_sheet\<close> that are not ASCII text: the table
  \<open>color_index_mapping\<close>, the list \<open>EXCLUDED_ACTIONS\<close> and the two marks of the
  auto-action column.
\<close>

record sheet_literals =
  color_index_mapping :: "string \<Rightarrow> string option"
  EXCLUDED_ACTIONS :: "string list"
  auto_action_on :: string
  auto_action_off :: string

text \<open>A cell of a row: a string, an integer or a float.\<close>

datatype 'f pcell = SCell string | ICell int | FCell 'f

text \<open>\<open>sep.join(xs)\<close>.\<close>

fun py_join :: "string \<Rightarrow> string list \<Rightarrow> string" where
  "py_join sep [] = []"
| "py_join sep [x] = x"
| "py_join sep (x # y # ys) = x @ sep @ py_join sep (y # ys)"

text \<open>The response to the request for one chunk of product ids.\<close>

datatype 'i prices_response =
    RequestFailed
  | NoItemsKey
  | Items "'i option list"

text \<open>
  The loop over \<open>result['items']\<close>: a \<open>None\<close> item and an item without \<open>product_id\<close> are
  skipped with a warning, every other item is stored under its \<open>product_id\<close>.
\<close>

definition store_items ::
  "(int \<times> 'f price_item option) list \<Rightarrow> 'f price_item option list \<Rightarrow> (int \<times> 'f price_item option) list" where
  "store_items all_prices its =
     foldl (\<lambda>all_prices item.
         case item of
           None \<Rightarrow> all_prices
         | Some it \<Rightarrow>
             (case pr_product_id it of
                Some pid \<Rightarrow> dict_set pid (Some it) all_prices
              | None \<Rightarrow> all_prices))
       all_prices its"

text \<open>
  \<open>get_ozon_prices(client_id, api_key, product_ids, limit)\<close>. The remote side is the
  function \<open>server\<close>, from the number of the request and the chunk it carries to the
  response. An exception of the request and a response without \<open>items\<close> are printed and
  the loop goes on. \<open>range\<close> raises \<open>ValueError\<close> for \<open>limit = 0\<close>, outside the \<open>try\<close>.
\<close>

definition get_ozon_prices ::
  "(nat \<Rightarrow> int list \<Rightarrow> 'f price_item prices_response) \<Rightarrow> int list \<Rightarrow> int \<Rightarrow>
   error + (int \<times> 'f price_item option) list" where
  "get_ozon_prices server product_ids limit =
     (if limit = 0 then Inl ValueError
      else if limit < 0 then Inr []
      else Inr (foldl (\<lambda>all_prices (n, i).
                   let chunk = take (nat limit) (drop i product_ids) in
                   case server n chunk of
                     RequestFailed \<Rightarrow> all_prices
                   | NoItemsKey \<Rightarrow> all_prices
                   | Items its \<Rightarrow> store_items all_prices its)
                 [] (enumerate 0 (range_from 0 (length product_ids) (nat limit)))))"

text \<open>The row of a product that has an item: the 24 cells of columns ET to FQ.\<close>

definition item_row :: "'f float_ops \<Rightarrow> sheet_literals \<Rightarrow> 'f \<Rightarrow> 'f price_item \<Rightarrow> 'f pcell list" where
  "item_row ops lit dq1_value item =
     (let price_data = (case price_dict item of None \<Rightarrow> empty_price_data | Some d \<Rightarrow> d);
          commissions = (case commissions_dict item of None \<Rightarrow> empty_commissions | Some d \<Rightarrow> d);
          marketing_actions = (case actions item of None \<Rightarrow> [] | Some a \<Rightarrow> a);
          auto_action = (if auto_action_enabled price_data = Some True
                         then auto_action_on lit else auto_action_off lit);
          old_price_v = safe_float ops (old_price price_data);
          min_price_v = safe_float ops (min_price price_data);
          price_v = safe_float ops (price price_data);
          marketing_seller_price_v = safe_float ops (marketing_seller_price price_data);
          marketing_price_v = safe_float ops (marketing_price price_data);
          net_price_v = safe_float ops (net_price price_data);
          color_index_v =
            (case color_index_mapping lit
                    (case color_index item of None \<Rightarrow> ''WITHOUT_INDEX'' | Some c \<Rightarrow> c) of
               None \<Rightarrow> ''WITHOUT_INDEX'' | Some label \<Rightarrow> label);
          acquiring_v = fceil ops (safe_float ops (acquiring item));
          sales_percent_fbo_v = safe_float ops (sales_percent_fbo commissions);
          sales_percent_fbs_v = safe_float ops (sales_percent_fbs commissions);
          fbo_transport = fceil ops (safe_float ops (fbo_direct_flow_trans_max_amount commissions));
          fbs_transport = fceil ops (safe_float ops (fbs_direct_flow_trans_max_amount commissions));
          fbo_delivery = fceil ops (safe_float ops (fbo_deliv_to_customer_amount commissions));
          fbs_delivery = fceil ops (safe_float ops (fbs_deliv_to_customer_amount commissions));
          dr_value = (if \<not> fzero ops marketing_seller_price_v \<and> \<not> fzero ops sales_percent_fbo_v
                      then fceil ops (fdiv ops (fmul ops marketing_seller_price_v sales_percent_fbo_v)
                                       (float_of_int ops 100))
                      else 0);
          ds_value = (if \<not> fzero ops marketing_seller_price_v \<and> \<not> fzero ops sales_percent_fbs_v
                      then fceil ops (fdiv ops (fmul ops marketing_seller_price_v sales_percent_fbs_v)
                                       (float_of_int ops 100))
                      else 0);
          dt_value = acquiring_v + dr_value + fbo_transport + fbo_delivery;
          du_value = fceil ops (fadd ops
                        (float_of_int ops (acquiring_v + fbs_transport + fbs_delivery + ds_value))
                        dq1_value);
          action_titles =
            foldl (\<lambda>action_titles action.
                case action of
                  None \<Rightarrow> action_titles
                | Some t \<Rightarrow>
                    let title = strip t in
                    if title \<noteq> [] \<and> title \<notin> set (EXCLUDED_ACTIONS lit)
                    then action_titles @ [''['' @ title @ '']'']
                    else action_titles)
              [] marketing_actions;
          actions_count = int (length action_titles);
          action_title = (if action_titles \<noteq> [] then py_join '' '' action_titles else [])
      in [ICell acquiring_v, FCell sales_percent_fbo_v, ICell dr_value, ICell fbo_transport,
          ICell fbo_delivery,
          FCell (safe_float ops (fbo_return_flow_amount commissions)),
          FCell sales_percent_fbs_v, ICell ds_value, ICell fbs_transport, ICell fbs_delivery,
          FCell (safe_float ops (fbs_return_flow_amount commissions)),
          ICell dt_value, ICell du_value,
          SCell [], SCell auto_action, FCell old_price_v, FCell min_price_v, FCell price_v,
          FCell marketing_seller_price_v, FCell marketing_price_v, SCell color_index_v,
          SCell action_title,
          ICell actions_count,
          FCell net_price_v])"

text \<open>
  The body of the loop of \<open>prepare_data_for_sheet\<close>: the row of one product id, from the
  item if \<open>data\<close> has one that is not \<open>None\<close>, and otherwise \<open>[''] * 27\<close>.
\<close>

definition product_row ::
  "'f float_ops \<Rightarrow> sheet_literals \<Rightarrow> 'f \<Rightarrow> (int \<times> 'f price_item option) list \<Rightarrow> int \<Rightarrow> 'f pcell list" where
  "product_row ops lit dq1_value data pid =
     (case map_of data pid of
        Some (Some item) \<Rightarrow> item_row ops lit dq1_value item
      | Some None \<Rightarrow> replicate 27 (SCell [])
      | None \<Rightarrow> replicate 27 (SCell []))"

text \<open>\<open>prepare_data_for_sheet(data, product_ids, dq1_value)\<close>.\<close>

definition prepare_data_for_sheet ::
  "'f float_ops \<Rightarrow> sheet_literals \<Rightarrow> (int \<times> 'f price_item option) list \<Rightarrow> int list \<Rightarrow> 'f \<Rightarrow>
   'f pcell list list" where
  "prepare_data_for_sheet ops lit data product_ids dq1_value =
     foldl (\<lambda>rows pid. rows @ [product_row ops lit dq1_value data pid]) [] product_ids"

text \<open>
  The number of columns of the range \<open>ET5:FQ...\<close> that \<open>write_data_to_sheet\<close> clears and
  updates: a column name is a number in base 26 with the digits A to Z for 1 to 26.
\<close>

definition column_number :: "string \<Rightarrow> nat" where
  "column_number name = foldl (\<lambda>n c. 26 * n + (of_char c - 64)) 0 name"

definition range_width :: "string \<Rightarrow> string \<Rightarrow> nat" where
  "range_width first_col last_col = column_number last_col + 1 - column_number first_col"

text \<open>
  The items received by \<open>get_ozon_prices\<close>, in the order of the responses and, within
  a response, of its list; the \<open>None\<close> entries are left out.
\<close>

definition valid_items :: "'i option list \<Rightarrow> 'i list" where
  "valid_items its = map the (filter (\<lambda>item. item \<noteq> None) its)"

definition fetched_items ::
  "(nat \<Rightarrow> int list \<Rightarrow> 'f price_item prices_response) \<Rightarrow> int list \<Rightarrow> int \<Rightarrow> 'f price_item list" where
  "fetched_items server product_ids limit =
     concat (map (\<lambda>(n, i).
                case server n (take (nat limit) (drop i product_ids)) of
                  RequestFailed \<Rightarrow> []
                | NoItemsKey \<Rightarrow> []
                | Items its \<Rightarrow> valid_items its)
              (enumerate 0 (range_from 0 (length product_ids) (nat limit))))"

section \<open>005.FBO_Oborachivaemost.py: turnover data per offer\<close>

text \<open>
  An item of the turnover response. \<open>offer_id\<close> is compared with the key of the sheet,
  a string; \<open>t_ads\<close> is copied to the sheet unchanged (\<open>None\<close> is a missing key);
  \<open>t_idc\<close> is rounded up when it is a number; \<open>t_turnover_grade\<close> is a code that is
  translated (\<open>None\<close> is a missing key).
\<close>

record ('v, 'f) turnover_item =
  offer_id :: "string option"
  t_ads :: "'v option"
  t_idc :: "'f pvalue"
  t_turnover_grade :: "string option"

text \<open>A cell of columns AJ to AL: \<open>''\<close>, the value of \<open>ads\<close>, an integer or a label.\<close>

datatype 'v tcell = TBlank | TAds 'v | TDays int | TLabel string

text \<open>
  The row of one offer: \<open>math.ceil(item['idc'])\<close> is taken when
  \<open>isinstance(item.get('idc'), (int, float))\<close>, which holds for integers, booleans and
  floats. The table \<open>TURNOVER_GRADE_TRANSLATION\<close> holds Cyrillic text and is an argument.
\<close>

definition turnover_row ::
  "'f float_ops \<Rightarrow> (string \<Rightarrow> string option) \<Rightarrow> ('v, 'f) turnover_item option \<Rightarrow> 'v tcell list" where
  "turnover_row ops TURNOVER_GRADE_TRANSLATION item =
     (case item of
        None \<Rightarrow> [TBlank, TBlank, TBlank]
      | Some it \<Rightarrow>
          [case t_ads it of None \<Rightarrow> TBlank | Some a \<Rightarrow> TAds a,
           case t_idc it of
             PInt i \<Rightarrow> TDays i
           | PBool b \<Rightarrow> TDays (if b then 1 else 0)
           | PFloat x \<Rightarrow> TDays (fceil ops x)
           | PNull \<Rightarrow> TBlank
           | PStr s \<Rightarrow> TBlank
           | POther \<Rightarrow> TBlank,
           case TURNOVER_GRADE_TRANSLATION
                  (case t_turnover_grade it of None \<Rightarrow> [] | Some g \<Rightarrow> g) of
             None \<Rightarrow> TBlank
           | Some label \<Rightarrow> TLabel label])"

text \<open>
  \<open>update_google_sheets\<close>, from the fetched items and the cells of column D (from
  \<open>start_row\<close> on) to \<open>data_to_write\<close>: for each cell, the first item whose \<open>offer_id\<close> is
  the stripped cell text, \<open>next((item for item in items if ...), None)\<close>.
\<close>

definition update_google_sheets ::
  "'f float_ops \<Rightarrow> (string \<Rightarrow> string option) \<Rightarrow> ('v, 'f) turnover_item list \<Rightarrow> string list \<Rightarrow>
   'v tcell list list" where
  "update_google_sheets ops TURNOVER_GRADE_TRANSLATION items offer_ids =
     foldl (\<lambda>data_to_write cell_text.
         let key = strip cell_text;
             item = find (\<lambda>item. offer_id item = Some key) items
         in data_to_write @ [turnover_row ops TURNOVER_GRADE_TRANSLATION item])
       [] offer_ids"

section \<open>Instances used in the examples\<close>

text \<open>Float operations read as exact arithmetic on real numbers; no string is a number.\<close>

definition real_ops :: "real float_ops" where
  "real_ops = \<lparr>float_of_int = of_int, float_of_str = (\<lambda>s. None), fmul = (*), fdiv = (/),
      fadd = (+), fceil = ceiling, fzero = (\<lambda>x. x = 0)\<rparr>"

text \<open>Literals with an empty colour table and no excluded action.\<close>

definition plain_literals :: sheet_literals where
  "plain_literals = \<lparr>color_index_mapping = (\<lambda>c. None), EXCLUDED_ACTIONS = [],
      auto_action_on = ''on'', auto_action_off = ''off''\<rparr>"

text \<open>A price item that has only a product id and an acquiring fee.\<close>

definition bare_price_item :: "int \<Rightarrow> real \<Rightarrow> real price_item" where
  "bare_price_item pid fee = \<lparr>pr_product_id = Some pid, price_dict = None, commissions_dict = None,
      color_index = None, actions = None, acquiring = PFloat fee\<rparr>"

text \<open>A turnover item that has only an offer id and a value of \<open>ads\<close>.\<close>

definition bare_turnover_item :: "string \<Rightarrow> nat \<Rightarrow> (nat, real) turnover_item" where
  "bare_turnover_item oid a = \<lparr>offer_id = Some oid, t_ads = Some a, t_idc = PNull,
      t_turnover_grade = None\<rparr>"

text \<open>A stocks item that has only a SKU and the days without sales.\<close>

definition bare_stocks_item :: "int \<Rightarrow> int \<Rightarrow> stocks_item" where
  "bare_stocks_item s d = \<lparr>st_sku = Some (SkuInt s), return_to_seller_stock_count = None,
      days_without_sales = Some (JInt d), idc = None, ads = None, turnover_grade = None\<rparr>"

section \<open>Paginated fetch loops\<close>

text \<open>
  The answer to a request for one page of the product list: the request (or the decoding
  of its answer) raised an exception, the status code was not 200, or a page was returned.
  A page is \<open>result.get('items', [])\<close> and \<open>result.get('last_id', "")\<close>, the empty list
  and the empty string standing for a missing key.
\<close>

datatype 'a list_response = Raised | HttpError nat | Page "'a list" string

text \<open>
  The remote side of the product list is a function \<open>server\<close> from the number of the
  request (0 for the first one) and the \<open>last_id\<close> it carries to the answer.

  001.Product_offer_id.py, the \<open>while True\<close> loop of \<open>get_all_products\<close>, with its state
  \<open>all_products\<close> and \<open>last_id\<close>; \<open>limit\<close> is the constant 1000. A status other than 200
  is printed and ends the loop with what has been collected; an exception of the request is
  not caught. The result is \<open>None\<close> when the loop runs forever.
\<close>

partial_function (option) get_all_products_loop ::
  "(nat \<Rightarrow> string \<Rightarrow> 'a list_response) \<Rightarrow> nat \<Rightarrow> 'a list \<Rightarrow> string \<Rightarrow> (error + 'a list) option" where
  "get_all_products_loop server n all_products last_id =
     (case server n last_id of
        Raised \<Rightarrow> Some (Inl RequestException)
      | HttpError code \<Rightarrow> Some (Inr all_products)
      | Page products new_last_id \<Rightarrow>
          if length products < 1000 then Some (Inr (all_products @ products))
          else if new_last_id = [] then Some (Inr (all_products @ products))
          else get_all_products_loop server (n + 1) (all_products @ products) new_last_id)"

definition get_all_products :: "(nat \<Rightarrow> string \<Rightarrow> 'a list_response) \<Rightarrow> (error + 'a list) option" where
  "get_all_products server = get_all_products_loop server 0 [] []"

text \<open>
  ozon_app/servises/ozon_api_servise.py, \<open>OzonAPIService.get_all_products\<close>: the same
  loop with \<open>limit\<close> a parameter; a failed request, a status that \<open>raise_for_status\<close>
  rejects and an answer that is not JSON raise \<open>RuntimeError\<close>.
\<close>

partial_function (option) api_get_all_products_loop ::
  "(nat \<Rightarrow> string \<Rightarrow> 'a list_response) \<Rightarrow> int \<Rightarrow> nat \<Rightarrow> 'a list \<Rightarrow> string \<Rightarrow> (error + 'a list) option" where
  "api_get_all_products_loop server limit n all_products last_id =
     (case server n last_id of
        Raised \<Rightarrow> Some (Inl RuntimeError)
      | HttpError code \<Rightarrow> Some (Inl RuntimeError)
      | Page products new_last_id \<Rightarrow>
          if int (length products) < limit \<or> new_last_id = []
          then Some (Inr (all_products @ products))
          else api_get_all_products_loop server limit (n + 1) (all_products @ products) new_last_id)"

text \<open>The method with its parameters: \<open>all_products\<close> (\<open>None\<close> by default), \<open>last_id\<close>, \<open>limit\<close>.\<close>

definition api_get_all_products ::
  "(nat \<Rightarrow> string \<Rightarrow> 'a list_response) \<Rightarrow> 'a list option \<Rightarrow> string \<Rightarrow> int \<Rightarrow> (error + 'a list) option" where
  "api_get_all_products server all_products last_id limit =
     api_get_all_products_loop server limit 0
       (case all_products of None \<Rightarrow> [] | Some given \<Rightarrow> given) last_id"

text \<open>
  The answer to a request for one page of turnover data: a \<open>RequestException\<close>, or the
  list \<open>data.get('items', [])\<close>.
\<close>

datatype 'a turnover_response = RequestError | Got "'a list"

text \<open>What the loop of 005 does to the outside: a request with its offset, and a sleep in seconds.\<close>

datatype event = Request nat | Sleep nat

text \<open>
  005.FBO_Oborachivaemost.py, the \<open>while True\<close> loop of \<open>get_all_ozon_data\<close>, with its
  state \<open>all_items\<close>, \<open>offset\<close> and \<open>retry_count\<close> and the events so far. \<open>server\<close> maps
  the number of the request and its offset to the answer. An empty page and a page of
  fewer than 1000 items end the loop; after a full page the loop sleeps 65 seconds. A
  failed request adds one to \<open>retry_count\<close>, which is never reset; when it exceeds
  \<open>max_retries\<close> the exception is raised again, otherwise the loop sleeps 60 seconds and
  repeats the request.
\<close>

partial_function (option) get_all_ozon_data_loop ::
  "(nat \<Rightarrow> nat \<Rightarrow> 'a turnover_response) \<Rightarrow> int \<Rightarrow> nat \<Rightarrow> 'a list \<Rightarrow> nat \<Rightarrow> int \<Rightarrow> event list
   \<Rightarrow> ((error + 'a list) \<times> event list) option" where
  "get_all_ozon_data_loop server max_retries n all_items offset retry_count trace =
     (case server n offset of
        Got items \<Rightarrow>
          if items = [] then Some (Inr all_items, trace @ [Request offset])
          else if length items < 1000
          then Some (Inr (all_items @ items), trace @ [Request offset])
          else get_all_ozon_data_loop server max_retries (n + 1) (all_items @ items)
                 (offset + length items) retry_count (trace @ [Request offset, Sleep 65])
      | RequestError \<Rightarrow>
          if retry_count + 1 > max_retries
          then Some (Inl RequestException, trace @ [Request offset])
          else get_all_ozon_data_loop server max_retries (n + 1) all_items offset
                 (retry_count + 1) (trace @ [Request offset, Sleep 60]))"

text \<open>\<open>get_all_ozon_data(client_id, api_key, max_retries)\<close>: the result and the events.\<close>

definition get_all_ozon_data ::
  "(nat \<Rightarrow> nat \<Rightarrow> 'a turnover_response) \<Rightarrow> int \<Rightarrow> ((error + 'a list) \<times> event list) option" where
  "get_all_ozon_data server max_retries = get_all_ozon_data_loop server max_retries 0 [] 0 0 []"

text \<open>
  A finite series of pages of a cursor-paginated list, as the server hands it out from
  request \<open>n\<close> on: the request that carries the token of the previous page (\<open>last_id\<close> for
  the first one) is answered with the next page; every page but the last one has at least
  \<open>limit\<close> items and a non-empty token, and the last one has fewer than \<open>limit\<close> items or
  an empty token. A page is the pair of its items and its token.
\<close>

fun cursor_series ::
  "(nat \<Rightarrow> string \<Rightarrow> 'a list_response) \<Rightarrow> int \<Rightarrow> nat \<Rightarrow> string \<Rightarrow> ('a list \<times> string) list \<Rightarrow> bool" where
  "cursor_series server limit n last_id [] = False"
| "cursor_series server limit n last_id [p] =
     (server n last_id = Page (fst p) (snd p) \<and> (int (length (fst p)) < limit \<or> snd p = []))"
| "cursor_series server limit n last_id (p # q # ps) =
     (server n last_id = Page (fst p) (snd p) \<and> \<not> int (length (fst p)) < limit \<and> snd p \<noteq> []
      \<and> cursor_series server limit (n + 1) (snd p) (q # ps))"

text \<open>
  A finite series of pages of an offset-paginated list, from request \<open>n\<close> and offset
  \<open>offset\<close> on: the request whose offset is the number of items of the pages before is
  answered with the next page; every page but the last one has at least 1000 items and the
  last one has fewer (it may be empty).
\<close>

fun offset_series ::
  "(nat \<Rightarrow> nat \<Rightarrow> 'a turnover_response) \<Rightarrow> nat \<Rightarrow> nat \<Rightarrow> 'a list list \<Rightarrow> bool" where
  "offset_series server n offset [] = False"
| "offset_series server n offset [p] = (server n offset = Got p \<and> length p < 1000)"
| "offset_series server n offset (p # q # ps) =
     (server n offset = Got p \<and> \<not> length p < 1000
      \<and> offset_series server (n + 1) (offset + length p) (q # ps))"

text \<open>
  A run of the turnover server with failures: the outcome of each request in turn. With
  \<open>budget\<close> retries left, the requests from number \<open>n\<close> and offset \<open>offset\<close> on have these
  outcomes: a page is served at the offset that counts the items of the pages before, a
  request that fails is asked again at the same offset while retries are left, and the run
  ends with a page of fewer than 1000 items or with a failure when no retry is left.
\<close>

datatype 'a outcome = Fails | Serves "'a list"

fun follows ::
  "(nat \<Rightarrow> nat \<Rightarrow> 'a turnover_response) \<Rightarrow> nat \<Rightarrow> nat \<Rightarrow> nat \<Rightarrow> 'a outcome list \<Rightarrow> bool" where
  "follows server budget n offset [] = False"
| "follows server budget n offset [Serves p] = (server n offset = Got p \<and> length p < 1000)"
| "follows server budget n offset [Fails] = (server n offset = RequestError \<and> budget = 0)"
| "follows server budget n offset (Serves p # out # outs) =
     (server n offset = Got p \<and> \<not> length p < 1000
      \<and> follows server budget (n + 1) (offset + length p) (out # outs))"
| "follows server budget n offset (Fails # out # outs) =
     (server n offset = RequestError \<and> 0 < budget
      \<and> follows server (budget - 1) (n + 1) offset (out # outs))"

text \<open>The items served in a run, and whether the run ends with a failure.\<close>

fun served :: "'a outcome list \<Rightarrow> 'a list" where
  "served [] = []"
| "served (Fails # outs) = served outs"
| "served (Serves p # outs) = p @ served outs"

definition ends_failed :: "'a outcome list \<Rightarrow> bool" where
  "ends_failed outs = (outs \<noteq> [] \<and> last outs = Fails)"

text \<open>
  The events of a run: each request with its offset; 65 seconds of sleep after a full
  page; 60 seconds of sleep after a failure, followed by the request at the same offset.
\<close>

fun events_of :: "nat \<Rightarrow> 'a outcome list \<Rightarrow> event list" where
  "events_of offset [] = []"
| "events_of offset [out] = [Request offset]"
| "events_of offset (Serves p # out # outs) =
     Request offset # Sleep 65 # events_of (offset + length p) (out # outs)"
| "events_of offset (Fails # out # outs) =
     Request offset # Sleep 60 # events_of offset (out # outs)"

section \<open>Facts about the Python values\<close>

lemma digit_cases: "d < 10 \<Longrightarrow> d = 0 \<or> d = 1 \<or> d = 2 \<or> d = 3 \<or> d = 4 \<or> d = 5 \<or> d = 6 \<or> d = 7 \<or> d = 8 \<or> d = (9::nat)"
  by arith

lemma digit_val_char: "d < 10 \<Longrightarrow> digit_val (digit_char d) = d"
  using digit_cases [of d] by (auto simp: digit_val_def digit_char_def)

lemma digit_char_not_minus: "d < 10 \<Longrightarrow> digit_char d \<noteq> CHR ''-''"
  using digit_cases [of d] by (auto simp: digit_char_def)

lemma str_nat_value: "foldl (\<lambda>a c. 10 * a + digit_val c) 0 (str_nat n) = n"
proof (induction n rule: str_nat.induct)
  case (1 n)
  show ?case
  proof (cases "n < 10")
    case True
    then show ?thesis by (subst str_nat.simps) (simp add: digit_val_char)
  next
    case False
    with 1 have "foldl (\<lambda>a c. 10 * a + digit_val c) 0 (str_nat (n div 10)) = n div 10" by simp
    then show ?thesis using False by (subst str_nat.simps) (simp add: digit_val_char)
  qed
qed

lemma str_nat_inj: "str_nat m = str_nat n \<Longrightarrow> m = n"
  by (metis str_nat_value)

lemma str_nat_no_minus: "CHR ''-'' \<notin> set (str_nat n)"
proof (induction n rule: str_nat.induct)
  case (1 n)
  show ?case
  proof (cases "n < 10")
    case True
    then show ?thesis using digit_char_not_minus [of n] by (subst str_nat.simps) auto
  next
    case False
    with 1 have "CHR ''-'' \<notin> set (str_nat (n div 10))" by simp
    then show ?thesis using False digit_char_not_minus [of "n mod 10"]
      by (subst str_nat.simps) auto
  qed
qed

lemma str_int_inj: "str_int i = str_int j \<longleftrightarrow> i = j"
proof
  assume e: "str_int i = str_int j"
  show "i = j"
  proof (cases "i < 0")
    case True
    show ?thesis
    proof (cases "j < 0")
      case True
      with \<open>i < 0\<close> e have "nat (- i) = nat (- j)" by (auto simp: str_int_def dest: str_nat_inj)
      with True \<open>i < 0\<close> show ?thesis by simp
    next
      case False
      with \<open>i < 0\<close> e have "CHR ''-'' # str_nat (nat (- i)) = str_nat (nat j)"
        by (simp add: str_int_def)
      then have "CHR ''-'' \<in> set (str_nat (nat j))" by (metis list.set_intros(1))
      then show ?thesis using str_nat_no_minus by blast
    qed
  next
    case False
    show ?thesis
    proof (cases "j < 0")
      case True
      with \<open>\<not> i < 0\<close> e have "str_nat (nat i) = CHR ''-'' # str_nat (nat (- j))"
        by (simp add: str_int_def)
      then have "CHR ''-'' \<in> set (str_nat (nat i))" by (metis list.set_intros(1))
      then show ?thesis using str_nat_no_minus by blast
    next
      case False
      with \<open>\<not> i < 0\<close> e have "nat i = nat j" by (auto simp: str_int_def dest: str_nat_inj)
      with False \<open>\<not> i < 0\<close> show ?thesis by simp
    qed
  qed
qed simp

lemma map_of_dict_set: "map_of (dict_set k v d) = (map_of d)(k \<mapsto> v)"
  by (induction d) (auto simp: fun_eq_iff)

lemma keys_dict_set:
  "map fst (dict_set k v d) = (if k \<in> set (map fst d) then map fst d else map fst d @ [k])"
  by (induction d) (fastforce simp: image_iff)+

lemma key_set_dict_set: "set (map fst (dict_set k v d)) = insert k (set (map fst d))"
  unfolding keys_dict_set by auto

lemma distinct_dict_set: "distinct (map fst d) \<Longrightarrow> distinct (map fst (dict_set k v d))"
  unfolding keys_dict_set by simp

lemma dict_of_snoc: "dict_of (kvs @ [(k, v)]) = dict_set k v (dict_of kvs)"
  by (simp add: dict_of_def)

lemma dict_of_Nil: "dict_of [] = []" by (simp add: dict_of_def)

lemma distinct_dict_of: "distinct (map fst (dict_of kvs))"
proof (induction kvs rule: rev_induct)
  case Nil show ?case by (simp add: dict_of_Nil)
next
  case (snoc kv kvs)
  obtain k v where "kv = (k, v)" by (cases kv)
  with snoc show ?case by (simp add: dict_of_snoc distinct_dict_set)
qed

lemma map_of_dict_of: "map_of (dict_of kvs) = map_of (rev kvs)"
proof (induction kvs rule: rev_induct)
  case Nil show ?case by (simp add: dict_of_Nil)
next
  case (snoc kv kvs)
  obtain k v where "kv = (k, v)" by (cases kv)
  with snoc show ?case by (simp add: dict_of_snoc map_of_dict_set fun_eq_iff)
qed

lemma keys_dict_of: "set (map fst (dict_of kvs)) = set (map fst kvs)"
proof (induction kvs rule: rev_induct)
  case Nil show ?case by (simp add: dict_of_Nil)
next
  case (snoc kv kvs)
  obtain k v where "kv = (k, v)" by (cases kv)
  with snoc key_set_dict_set [of k v "dict_of kvs"] show ?case by (simp add: dict_of_snoc)
qed

lemma foldl_append_map: "foldl (\<lambda>acc x. acc @ [f x]) a xs = a @ map f xs"
  by (induction xs arbitrary: a) auto

section \<open>Properties of chunking\<close>

lemma range_from_bound: "x \<in> set (range_from k stop n) \<Longrightarrow> x < stop"
proof (induction k stop n rule: range_from.induct)
  case (1 i stop step)
  show ?case
  proof (cases "step = 0 \<or> stop \<le> i")
    case True
    with 1(2) show ?thesis by (subst (asm) range_from.simps) simp
  next
    case False
    from 1(2) have "x \<in> set (i # range_from (i + step) stop step)"
      using False by (subst (asm) range_from.simps) simp
    then show ?thesis using 1(1) False by auto
  qed
qed

lemma range_from_empty_iff: "0 < n \<Longrightarrow> range_from k stop n = [] \<longleftrightarrow> stop \<le> k"
  by (subst range_from.simps) simp

lemma concat_slices:
  "0 < n \<Longrightarrow> concat (map (\<lambda>i. take n (drop i xs)) (range_from k (length xs) n)) = drop k xs"
proof (induction k "length xs" n rule: range_from.induct)
  case (1 i step)
  show ?case
  proof (cases "length xs \<le> i")
    case True
    then show ?thesis by (subst range_from.simps) simp
  next
    case False
    with 1 have "concat (map (\<lambda>i. take step (drop i xs))
        (range_from (i + step) (length xs) step)) = drop (i + step) xs"
      by simp
    moreover have "take step (drop i xs) @ drop (i + step) xs = drop i xs"
      by (metis add.commute append_take_drop_id drop_drop)
    ultimately show ?thesis using False 1(2) by (subst range_from.simps) simp
  qed
qed

lemma slices_full:
  "0 < n \<Longrightarrow> Suc j < length (range_from k (length xs) n) \<Longrightarrow>
     length (map (\<lambda>i. take n (drop i xs)) (range_from k (length xs) n) ! j) = n"
proof (induction k "length xs" n arbitrary: j rule: range_from.induct)
  case (1 i step)
  have go: "\<not> (step = 0 \<or> length xs \<le> i)"
    using 1(3) by (subst (asm) range_from.simps) (auto split: if_splits)
  then have unfold: "range_from i (length xs) step = i # range_from (i + step) (length xs) step"
    by (subst range_from.simps) simp
  show ?case
  proof (cases j)
    case 0
    with 1(3) unfold have "range_from (i + step) (length xs) step \<noteq> []" by auto
    with 1(2) have "i + step < length xs" by (simp add: range_from_empty_iff)
    then show ?thesis using 0 unfold by simp
  next
    case (Suc j')
    with 1(3) unfold have "Suc j' < length (range_from (i + step) (length xs) step)" by simp
    with 1(1) [OF go 1(2)] have
      "length (map (\<lambda>i. take step (drop i xs)) (range_from (i + step) (length xs) step) ! j') = step"
      by simp
    then show ?thesis using Suc unfold by simp
  qed
qed

lemma slices_nonempty:
  assumes "0 < n" and "c \<in> set (map (\<lambda>i. take n (drop i xs)) (range_from k (length xs) n))"
  shows "c \<noteq> [] \<and> length c \<le> n"
proof -
  from assms(2) obtain i where i: "i \<in> set (range_from k (length xs) n)" and c: "c = take n (drop i xs)"
    by auto
  from i have "i < length xs" by (rule range_from_bound)
  with c assms(1) show ?thesis by simp
qed

text \<open>
  C5. For every sequence \<open>S\<close> and every chunk size \<open>n > 0\<close>, \<open>chunks(S, n)\<close> returns a
  list of chunks whose concatenation is \<open>S\<close> (so order is kept within and across chunks);
  every chunk but the last has exactly \<open>n\<close> elements, and no chunk is empty or longer
  than \<open>n\<close>. The chunk list of 006.Stock_FBO_FBS.py, with its fixed size 1000, has the
  same properties.
\<close>

theorem chunks_reassembly:
  assumes "0 < n"
  shows "(\<exists>cs. chunks S n = Inr cs \<and> concat cs = S
           \<and> (\<forall>j. Suc j < length cs \<longrightarrow> length (cs ! j) = nat n)
           \<and> (\<forall>c \<in> set cs. c \<noteq> [] \<and> length c \<le> nat n))
       \<and> concat (chunks_006 S) = S
       \<and> (\<forall>j. Suc j < length (chunks_006 S) \<longrightarrow> length (chunks_006 S ! j) = 1000)
       \<and> (\<forall>c \<in> set (chunks_006 S). c \<noteq> [] \<and> length c \<le> 1000)"
proof -
  let ?cs = "map (\<lambda>i. take (nat n) (drop i S)) (range_from 0 (length S) (nat n))"
  from assms have n: "0 < nat n" by simp
  have "chunks S n = Inr ?cs" using assms by (simp add: chunks_def)
  moreover have "concat ?cs = S" using concat_slices [OF n, of S 0] by simp
  moreover have "\<forall>j. Suc j < length ?cs \<longrightarrow> length (?cs ! j) = nat n"
  proof (intro allI impI)
    fix j assume "Suc j < length ?cs"
    then have "Suc j < length (range_from 0 (length S) (nat n))" by simp
    then show "length (?cs ! j) = nat n" by (rule slices_full [OF n])
  qed
  moreover have "\<forall>c \<in> set ?cs. c \<noteq> [] \<and> length c \<le> nat n"
    using slices_nonempty [OF n] by blast
  ultimately have first: "\<exists>cs. chunks S n = Inr cs \<and> concat cs = S
           \<and> (\<forall>j. Suc j < length cs \<longrightarrow> length (cs ! j) = nat n)
           \<and> (\<forall>c \<in> set cs. c \<noteq> [] \<and> length c \<le> nat n)"
    by blast
  have k: "(0::nat) < 1000" by simp
  have second: "concat (chunks_006 S) = S
           \<and> (\<forall>j. Suc j < length (chunks_006 S) \<longrightarrow> length (chunks_006 S ! j) = 1000)
           \<and> (\<forall>c \<in> set (chunks_006 S). c \<noteq> [] \<and> length c \<le> 1000)"
  proof (cases "S = []")
    case True
    then show ?thesis by (simp add: chunks_006_def)
  next
    case False
    let ?ds = "map (\<lambda>i. take 1000 (drop i S)) (range_from 0 (length S) 1000)"
    have "chunks_006 S = ?ds" using False by (simp add: chunks_006_def)
    moreover have "concat ?ds = S" using concat_slices [OF k, of S 0] by simp
    moreover have "\<forall>j. Suc j < length ?ds \<longrightarrow> length (?ds ! j) = 1000"
    proof (intro allI impI)
      fix j assume "Suc j < length ?ds"
      then have "Suc j < length (range_from 0 (length S) 1000)" by simp
      then show "length (?ds ! j) = 1000" by (rule slices_full [OF k])
    qed
    moreover have "\<forall>c \<in> set ?ds. c \<noteq> [] \<and> length c \<le> 1000"
      using slices_nonempty [OF k] by blast
    ultimately show ?thesis by simp
  qed
  from first second show ?thesis by blast
qed

theorem chunks_reassembly_witness:
  "(0::int) < 3 \<and> chunks ''abcdefg'' 3 = Inr [''abc'', ''def'', ''g'']
     \<and> (\<exists>cs. chunks ''abcdefg'' 3 = Inr cs \<and> concat cs = ''abcdefg''
           \<and> (\<forall>j. Suc j < length cs \<longrightarrow> length (cs ! j) = nat 3)
           \<and> (\<forall>c \<in> set cs. c \<noteq> [] \<and> length c \<le> nat 3))
     \<and> concat (chunks_006 ''abcdefg'') = ''abcdefg''"
proof -
  have h: "(0::int) < 3" by simp
  have e: "chunks ''abcdefg'' 3 = Inr [''abc'', ''def'', ''g'']"
    by (simp add: chunks_def range_from.simps)
  show ?thesis using h e chunks_reassembly [OF h, of "''abcdefg''"] by blast
qed

section \<open>Properties of the credential readers\<close>

lemma read_api_credentials_few_lines:
  "length (filter (\<lambda>line. strip line \<noteq> []) file_lines) < 4 \<Longrightarrow>
     read_api_credentials file_lines = Inl ValueError"
  by (simp add: read_api_credentials_def Let_def)

text \<open>
  C8. A credential file with four lines of which only three are non-blank:
  \<open>read_api_credentials\<close> of 001.Product_offer_id.py raises \<open>ValueError\<close>, while
  \<open>read_api_config\<close> of 014.Analytics_base.py and \<open>read_api_credentials\<close> of
  006.Stock_FBO_FBS.py count the blank line and return credentials whose secret key is the
  empty string.
\<close>

theorem credentials_blank_line_accepted:
  "read_api_credentials [''123'' @ [CHR 0x0A], [CHR 0x0A], ''key'' @ [CHR 0x0A], ''sheet'' @ [CHR 0x0A]]
     = Inl ValueError
   \<and> read_api_config [''123'' @ [CHR 0x0A], [CHR 0x0A], ''key'' @ [CHR 0x0A], ''sheet'' @ [CHR 0x0A]]
     = Inr \<lparr>client_id = ''123'', api_key = '''', spreadsheet_id = ''key'', sheet_name = ''sheet''\<rparr>
   \<and> read_api_credentials_006 [''123'' @ [CHR 0x0A], [CHR 0x0A], ''key'' @ [CHR 0x0A], ''sheet'' @ [CHR 0x0A]]
     = Inr (''123'', '''', ''key'', ''sheet'')"
  by (simp add: read_api_credentials_def read_api_config_def read_api_credentials_006_def
      strip_def isspace_def)

section \<open>Properties of the row updates of 014.Analytics_base.py\<close>

lemma key_rows_snoc:
  "key_rows (xs @ [x]) = key_rows xs @ (if strip x \<noteq> [] then [(x, length xs + 5)] else [])"
  by (simp add: key_rows_def enumerate_append_eq)

lemma key_rows_Nil: "key_rows [] = []" by (simp add: key_rows_def)

lemma key_rows_keys: "set (map fst (key_rows xs)) = {s \<in> set xs. strip s \<noteq> []}"
  by (induction xs rule: rev_induct) (auto simp: key_rows_Nil key_rows_snoc)

lemma last_row_lookup:
  "map_of (rev (key_rows xs)) s = Some r \<longleftrightarrow>
     (\<exists>i<length xs. r = i + 5 \<and> xs ! i = s \<and> strip s \<noteq> []
        \<and> (\<forall>j. i < j \<and> j < length xs \<longrightarrow> xs ! j \<noteq> s))"
proof (induction xs arbitrary: r rule: rev_induct)
  case Nil show ?case by (simp add: key_rows_Nil)
next
  case (snoc x xs)
  show ?case
  proof (cases "strip x \<noteq> [] \<and> x = s")
    case True
    then have "map_of (rev (key_rows (xs @ [x]))) s = Some (length xs + 5)"
      by (auto simp: key_rows_snoc)
    moreover have "(\<exists>i<length (xs @ [x]). r = i + 5 \<and> (xs @ [x]) ! i = s \<and> strip s \<noteq> []
        \<and> (\<forall>j. i < j \<and> j < length (xs @ [x]) \<longrightarrow> (xs @ [x]) ! j \<noteq> s)) \<longleftrightarrow> r = length xs + 5"
    proof
      assume "\<exists>i<length (xs @ [x]). r = i + 5 \<and> (xs @ [x]) ! i = s \<and> strip s \<noteq> []
        \<and> (\<forall>j. i < j \<and> j < length (xs @ [x]) \<longrightarrow> (xs @ [x]) ! j \<noteq> s)"
      then obtain i where i: "i < length (xs @ [x])" "r = i + 5"
        "\<forall>j. i < j \<and> j < length (xs @ [x]) \<longrightarrow> (xs @ [x]) ! j \<noteq> s" by blast
      have "\<not> i < length xs"
      proof
        assume "i < length xs"
        with i(3) have "(xs @ [x]) ! length xs \<noteq> s"
          by (metis length_append_singleton lessI)
        with True show False by simp
      qed
      with i show "r = length xs + 5" by simp
    next
      assume "r = length xs + 5"
      with True show "\<exists>i<length (xs @ [x]). r = i + 5 \<and> (xs @ [x]) ! i = s \<and> strip s \<noteq> []
        \<and> (\<forall>j. i < j \<and> j < length (xs @ [x]) \<longrightarrow> (xs @ [x]) ! j \<noteq> s)"
        by (intro exI [of _ "length xs"]) auto
    qed
    ultimately show ?thesis by auto
  next
    case False
    then have "map_of (rev (key_rows (xs @ [x]))) s = map_of (rev (key_rows xs)) s"
      by (auto simp: key_rows_snoc)
    moreover have "(\<exists>i<length (xs @ [x]). r = i + 5 \<and> (xs @ [x]) ! i = s \<and> strip s \<noteq> []
        \<and> (\<forall>j. i < j \<and> j < length (xs @ [x]) \<longrightarrow> (xs @ [x]) ! j \<noteq> s))
      \<longleftrightarrow> (\<exists>i<length xs. r = i + 5 \<and> xs ! i = s \<and> strip s \<noteq> []
        \<and> (\<forall>j. i < j \<and> j < length xs \<longrightarrow> xs ! j \<noteq> s))" (is "?L \<longleftrightarrow> ?R")
    proof
      assume ?L
      then obtain i where i: "i < length (xs @ [x])" "r = i + 5" "(xs @ [x]) ! i = s" "strip s \<noteq> []"
        "\<forall>j. i < j \<and> j < length (xs @ [x]) \<longrightarrow> (xs @ [x]) ! j \<noteq> s" by blast
      have lt: "i < length xs"
      proof (rule ccontr)
        assume "\<not> i < length xs"
        with i(1) have "i = length xs" by simp
        with i(3,4) False show False by simp
      qed
      have "\<forall>j. i < j \<and> j < length xs \<longrightarrow> xs ! j \<noteq> s"
      proof (intro allI impI)
        fix j assume j: "i < j \<and> j < length xs"
        with i(5) have "(xs @ [x]) ! j \<noteq> s" by simp
        with j show "xs ! j \<noteq> s" by (simp add: nth_append)
      qed
      with lt i show ?R by (auto simp: nth_append)
    next
      assume ?R
      then obtain i where i: "i < length xs" "r = i + 5" "xs ! i = s" "strip s \<noteq> []"
        "\<forall>j. i < j \<and> j < length xs \<longrightarrow> xs ! j \<noteq> s" by blast
      have "\<forall>j. i < j \<and> j < length (xs @ [x]) \<longrightarrow> (xs @ [x]) ! j \<noteq> s"
      proof (intro allI impI)
        fix j assume j: "i < j \<and> j < length (xs @ [x])"
        show "(xs @ [x]) ! j \<noteq> s"
        proof (cases "j < length xs")
          case True with i(5) j show ?thesis by (simp add: nth_append)
        next
          case False
          with j have "j = length xs" by simp
          with \<open>\<not> (strip x \<noteq> [] \<and> x = s)\<close> i(4) show ?thesis by auto
        qed
      qed
      with i show ?L by (intro exI [of _ i]) (simp add: nth_append)
    qed
    ultimately show ?thesis using snoc by simp
  qed
qed

lemma sku_to_row_mem:
  "(s, r) \<in> set (sku_to_row_of xs) \<longleftrightarrow>
     (\<exists>i<length xs. r = i + 5 \<and> xs ! i = s \<and> strip s \<noteq> []
        \<and> (\<forall>j. i < j \<and> j < length xs \<longrightarrow> xs ! j \<noteq> s))"
proof -
  have "(s, r) \<in> set (sku_to_row_of xs) \<longleftrightarrow> map_of (sku_to_row_of xs) s = Some r"
    using distinct_dict_of [of "key_rows xs"]
    by (simp add: sku_to_row_of_def key_rows_def [symmetric])
  also have "\<dots> \<longleftrightarrow> map_of (rev (key_rows xs)) s = Some r"
    by (simp add: sku_to_row_of_def key_rows_def [symmetric] map_of_dict_of)
  finally show ?thesis by (simp only: last_row_lookup)
qed

lemma main_updates_rows:
  "map range_row (main_updates sku_col all_items) = map snd (sku_to_row_of sku_col)"
proof (cases "filter (\<lambda>sku. strip sku \<noteq> []) sku_col = []")
  case True
  then have "\<forall>s \<in> set sku_col. strip s = []" by (auto simp: filter_empty_conv)
  then have "{s \<in> set sku_col. strip s \<noteq> []} = {}" by blast
  then have "set (map fst (key_rows sku_col)) = {}" by (simp only: key_rows_keys)
  then have "key_rows sku_col = []" by simp
  then have "sku_to_row_of sku_col = []"
    by (simp add: sku_to_row_of_def key_rows_def [symmetric] dict_of_Nil)
  with True show ?thesis by (simp add: main_updates_def)
next
  case False
  then show ?thesis
    by (simp add: main_updates_def Let_def case_prod_unfold foldl_append_map comp_def)
qed

text \<open>
  The updates of \<open>main\<close> follow the cell texts of the key column as they are read: there
  is one update per distinct non-blank cell text, no row is written twice, and the rows
  written are exactly the rows of the last occurrence of each cell text.
\<close>

lemma updates_per_cell_text:
  "length (main_updates sku_col all_items) = card {s \<in> set sku_col. strip s \<noteq> []}
   \<and> distinct (map range_row (main_updates sku_col all_items))
   \<and> set (map range_row (main_updates sku_col all_items)) =
       {idx + 5 | idx. idx < length sku_col \<and> strip (sku_col ! idx) \<noteq> []
          \<and> (\<forall>j. idx < j \<and> j < length sku_col \<longrightarrow> sku_col ! j \<noteq> sku_col ! idx)}"
proof -
  let ?D = "sku_to_row_of sku_col"
  have dk: "distinct (map fst ?D)"
    by (simp add: sku_to_row_of_def distinct_dict_of)
  have "length (main_updates sku_col all_items) = length (map range_row (main_updates sku_col all_items))"
    by simp
  also have "\<dots> = length (map fst ?D)" by (simp add: main_updates_rows)
  also have "\<dots> = card (set (map fst ?D))" using dk by (simp only: distinct_card)
  also have "set (map fst ?D) = {s \<in> set sku_col. strip s \<noteq> []}"
    using keys_dict_of [of "key_rows sku_col"]
    by (simp only: sku_to_row_of_def key_rows_def [symmetric] key_rows_keys)
  finally have len: "length (main_updates sku_col all_items) = card {s \<in> set sku_col. strip s \<noteq> []}" .
  have "inj_on snd (set ?D)"
  proof (rule inj_onI)
    fix p q assume p: "p \<in> set ?D" and q: "q \<in> set ?D" and e: "snd p = snd q"
    obtain s r where pe: "p = (s, r)" by (cases p)
    obtain s' r' where qe: "q = (s', r')" by (cases q)
    from p pe obtain i where i: "r = i + 5" "sku_col ! i = s" by (auto simp: sku_to_row_mem)
    from q qe obtain i' where i': "r' = i' + 5" "sku_col ! i' = s'" by (auto simp: sku_to_row_mem)
    from e pe qe i i' show "p = q" by simp
  qed
  moreover have "distinct ?D" using dk by (rule distinct_map [THEN iffD1, THEN conjunct1])
  ultimately have "distinct (map snd ?D)" by (simp add: distinct_map)
  then have dist: "distinct (map range_row (main_updates sku_col all_items))"
    by (simp only: main_updates_rows)
  have "set (map snd ?D) = {idx + 5 | idx. idx < length sku_col \<and> strip (sku_col ! idx) \<noteq> []
          \<and> (\<forall>j. idx < j \<and> j < length sku_col \<longrightarrow> sku_col ! j \<noteq> sku_col ! idx)}"
  proof (intro set_eqI iffI)
    fix r assume "r \<in> set (map snd ?D)"
    then obtain s where "(s, r) \<in> set ?D" by auto
    then show "r \<in> {idx + 5 | idx. idx < length sku_col \<and> strip (sku_col ! idx) \<noteq> []
          \<and> (\<forall>j. idx < j \<and> j < length sku_col \<longrightarrow> sku_col ! j \<noteq> sku_col ! idx)}"
      by (auto simp: sku_to_row_mem)
  next
    fix r assume "r \<in> {idx + 5 | idx. idx < length sku_col \<and> strip (sku_col ! idx) \<noteq> []
          \<and> (\<forall>j. idx < j \<and> j < length sku_col \<longrightarrow> sku_col ! j \<noteq> sku_col ! idx)}"
    then obtain i where "i < length sku_col" "r = i + 5" "strip (sku_col ! i) \<noteq> []"
      "\<forall>j. i < j \<and> j < length sku_col \<longrightarrow> sku_col ! j \<noteq> sku_col ! i" by blast
    then have "(sku_col ! i, r) \<in> set ?D" by (subst sku_to_row_mem) blast
    then show "r \<in> set (map snd ?D)" by force
  qed
  then have rows: "set (map range_row (main_updates sku_col all_items)) =
       {idx + 5 | idx. idx < length sku_col \<and> strip (sku_col ! idx) \<noteq> []
          \<and> (\<forall>j. idx < j \<and> j < length sku_col \<longrightarrow> sku_col ! j \<noteq> sku_col ! idx)}"
    by (simp only: main_updates_rows)
  from len dist rows show ?thesis by blast
qed

lemma updates_per_cell_text_example:
  "map range_row (main_updates [''A'', ''B'', ''A'', '' '', ''C''] ([] :: nat query_item list)) = [7, 6, 9]
   \<and> (length (main_updates [''A'', ''B'', ''A'', '' '', ''C''] ([] :: nat query_item list))
         = card {s \<in> set [''A'', ''B'', ''A'', '' '', ''C'']. strip s \<noteq> []}
      \<and> distinct (map range_row (main_updates [''A'', ''B'', ''A'', '' '', ''C''] ([] :: nat query_item list)))
      \<and> set (map range_row (main_updates [''A'', ''B'', ''A'', '' '', ''C''] ([] :: nat query_item list))) =
         {idx + 5 | idx. idx < length [''A'', ''B'', ''A'', '' '', ''C'']
            \<and> strip ([''A'', ''B'', ''A'', '' '', ''C''] ! idx) \<noteq> []
            \<and> (\<forall>j. idx < j \<and> j < length [''A'', ''B'', ''A'', '' '', ''C''] \<longrightarrow>
                 [''A'', ''B'', ''A'', '' '', ''C''] ! j \<noteq> [''A'', ''B'', ''A'', '' '', ''C''] ! idx)})"
proof -
  have e: "map range_row (main_updates [''A'', ''B'', ''A'', '' '', ''C''] ([] :: nat query_item list)) = [7, 6, 9]"
    by (simp add: main_updates_def sku_to_row_of_def sku_data_of_def dict_of_def strip_def
        isspace_def enumerate_eq_zip upt_rec [of 0])
  from conjI [OF e updates_per_cell_text [of "[''A'', ''B'', ''A'', '' '', ''C'']" "[] :: nat query_item list"]]
  show ?thesis .
qed

text \<open>
  When no key cell carries surrounding whitespace, the cell texts are the SKUs, and
  there is one update per distinct SKU.
\<close>

lemma clean_column_one_update_per_sku:
  assumes "\<forall>s \<in> set sku_col. strip s \<noteq> [] \<longrightarrow> strip s = s"
  shows "length (main_updates sku_col all_items)
           = card (strip ` {s \<in> set sku_col. strip s \<noteq> []})"
proof -
  from assms have "strip ` {s \<in> set sku_col. strip s \<noteq> []} = {s \<in> set sku_col. strip s \<noteq> []}"
    by force
  with updates_per_cell_text [of sku_col all_items] show ?thesis by simp
qed

text \<open>
  C9. In 014.Analytics_base.py the key column \<open>A\<close>, \<open>A \<close> holds one SKU in two rows:
  both cells strip to \<open>A\<close>, the SKU under which \<open>skus\<close> and \<open>sku_data\<close> know it. The
  keys of \<open>sku_to_row\<close> are not stripped, so two updates are emitted for this one SKU:
  row 5, the earlier occurrence, is written with the metrics of the item, and row 6, the
  last occurrence, is written with five empty strings, its key \<open>A \<close> not being in
  \<open>sku_data\<close>.
\<close>

theorem unstripped_key_two_updates:
  "strip ''A '' = strip ''A''
   \<and> main_updates [''A'', ''A '']
       [\<lparr>q_sku = Some (SkuStr ''A''), unique_search_users = Some (10::nat), position = Some 1,
         unique_view_users = Some 3, view_conversion = Some 2, gmv = Some 99\<rparr>]
     = [\<lparr>range_row = 5, row_values = [Value 10, Value 1, Value 3, Value 2, Value 99]\<rparr>,
        \<lparr>range_row = 6, row_values = replicate 5 Blank\<rparr>]"
  by (simp add: main_updates_def sku_to_row_of_def sku_data_of_def sku_key_def dict_of_def
      strip_def isspace_def enumerate_eq_zip upt_rec [of 0])

section \<open>Properties of the stock sums of 006.Stock_FBO_FBS.py\<close>

lemma stock_loop:
  "foldl (\<lambda>(fbo_stock, fbs_stock) stock.
       if stock_type stock = ''fbo'' then (fbo_stock + present stock, fbs_stock)
       else if stock_type stock = ''fbs'' then (fbo_stock, fbs_stock + present stock)
       else (fbo_stock, fbs_stock)) (a, b) ss
   = (a + sum_present ''fbo'' ss, b + sum_present ''fbs'' ss)"
  by (induction ss arbitrary: a b) (auto simp: sum_present_def)

lemma map_of_find:
  "map_of (map (\<lambda>x. (f x, g x)) xs) k = map_option g (find (\<lambda>x. f x = k) xs)"
  by (induction xs) auto

lemma stock_dict_lookup:
  "(case map_of (dict_of (map (\<lambda>item. (str_int (product_id item), stocks item)) data_items)) (str_int pid)
      of Some s \<Rightarrow> s | None \<Rightarrow> []) = stocks_of data_items pid"
proof -
  have "map_of (dict_of (map (\<lambda>item. (str_int (product_id item), stocks item)) data_items)) (str_int pid)
      = map_of (map (\<lambda>item. (str_int (product_id item), stocks item)) (rev data_items)) (str_int pid)"
    by (simp add: map_of_dict_of rev_map)
  also have "\<dots> = map_option stocks (find (\<lambda>item. product_id item = pid) (rev data_items))"
    by (simp only: map_of_find str_int_inj)
  finally show ?thesis by (simp add: stocks_of_def split: option.splits)
qed

lemma pair_rows_loop:
  "foldl (\<lambda>(rows_fbo, rows_fbs) pid. (rows_fbo @ [f pid], rows_fbs @ [g pid])) (a, b) pids
   = (a @ map f pids, b @ map g pids)"
  by (induction pids arbitrary: a b) auto

lemma update_google_sheet_map:
  "update_google_sheet data_items product_ids =
     (map (\<lambda>pid. [sum_present ''fbo'' (stocks_of data_items pid)]) product_ids,
      map (\<lambda>pid. [sum_present ''fbs'' (stocks_of data_items pid)]) product_ids)"
  unfolding update_google_sheet_def Let_def stock_dict_lookup stock_loop
  by (simp add: pair_rows_loop)

text \<open>
  C10. In 006.Stock_FBO_FBS.py, the FBO cell (the FBS cell) written for the product at
  position \<open>i\<close> of the key list is the sum of \<open>present\<close> over that product's stock
  entries of type \<open>fbo\<close> (of type \<open>fbs\<close>); for a product that no fetched item has, both
  cells are the number 0.
\<close>

theorem stock_cells_are_sums:
  assumes "i < length product_ids"
  shows "fst (update_google_sheet data_items product_ids) ! i
           = [sum_present ''fbo'' (stocks_of data_items (product_ids ! i))]
       \<and> snd (update_google_sheet data_items product_ids) ! i
           = [sum_present ''fbs'' (stocks_of data_items (product_ids ! i))]
       \<and> ((\<forall>item \<in> set data_items. product_id item \<noteq> product_ids ! i) \<longrightarrow>
            fst (update_google_sheet data_items product_ids) ! i = [0]
          \<and> snd (update_google_sheet data_items product_ids) ! i = [0])"
proof -
  have none: "stocks_of data_items (product_ids ! i) = []"
    if "\<forall>item \<in> set data_items. product_id item \<noteq> product_ids ! i"
  proof -
    from that have "find (\<lambda>item. product_id item = product_ids ! i) (rev data_items) = None"
      by (simp add: find_None_iff)
    then show ?thesis by (simp add: stocks_of_def)
  qed
  show ?thesis using assms none
    by (auto simp: update_google_sheet_map sum_present_def)
qed

theorem stock_cells_are_sums_witness:
  "update_google_sheet
     [\<lparr>product_id = 7, stocks = [\<lparr>stock_type = ''fbo'', present = 3\<rparr>,
                                \<lparr>stock_type = ''fbs'', present = 4\<rparr>,
                                \<lparr>stock_type = ''fbo'', present = 5\<rparr>]\<rparr>]
     [7, 9] = ([[8], [0]], [[4], [0]])
   \<and> (1::nat) < length [7, 9 :: int]
   \<and> fst (update_google_sheet
     [\<lparr>product_id = 7, stocks = [\<lparr>stock_type = ''fbo'', present = 3\<rparr>,
                                \<lparr>stock_type = ''fbs'', present = 4\<rparr>,
                                \<lparr>stock_type = ''fbo'', present = 5\<rparr>]\<rparr>]
     [7, 9]) ! 1 = [0]"
proof -
  let ?items = "[\<lparr>product_id = 7, stocks = [\<lparr>stock_type = ''fbo'', present = 3\<rparr>,
                                \<lparr>stock_type = ''fbs'', present = 4\<rparr>,
                                \<lparr>stock_type = ''fbo'', present = 5\<rparr>]\<rparr>]"
  have e: "update_google_sheet ?items [7, 9] = ([[8], [0]], [[4], [0]])"
    by (simp add: update_google_sheet_def dict_of_def str_int_def str_nat.simps digit_char_def)
  have h: "(1::nat) < length [7, 9 :: int]" by simp
  have n: "\<forall>item \<in> set ?items. product_id item \<noteq> [7, 9] ! 1" by simp
  from stock_cells_are_sums [OF h, of ?items] n
  have "fst (update_google_sheet ?items [7, 9]) ! 1 = [0]" by blast
  with e h show ?thesis by blast
qed

section \<open>Properties of the export rows of 008.FBO_Upravlenie_stocks.py\<close>

lemma round_half_even_near: "\<bar>x - of_int (round_half_even x)\<bar> \<le> 1 / 2"
proof -
  have "of_int \<lfloor>x\<rfloor> \<le> x" "x < of_int \<lfloor>x\<rfloor> + 1" by linarith+
  then show ?thesis by (auto simp: round_half_even_def Let_def)
qed

lemma round_half_even_of_int: "round_half_even (of_int h) = h"
  by (simp add: round_half_even_def Let_def)

lemma py_round2_near: "\<bar>x - py_round2 x\<bar> \<le> 1 / 200"
  using round_half_even_near [of "x * 100"] by (simp add: py_round2_def field_simps abs_le_iff)

lemma format_2f_py_round2:
  "format_2f (py_round2 x) =
     (let h = nat \<bar>round_half_even (x * 100)\<bar> in
      (if round_half_even (x * 100) < 0 then ''-'' else []) @ str_nat (h div 100) @ ''.''
        @ [digit_char (h mod 100 div 10), digit_char (h mod 10)])"
proof -
  have "py_round2 x * 100 = of_int (round_half_even (x * 100))" by (simp add: py_round2_def)
  moreover have "py_round2 x < 0 \<longleftrightarrow> round_half_even (x * 100) < 0"
    by (simp add: py_round2_def divide_less_0_iff)
  ultimately show ?thesis by (simp add: format_2f_def round_half_even_of_int)
qed

lemma single_item_index:
  assumes "st_sku it = Some v" "py_str_sku v = k" "k \<noteq> []"
  shows "index_items [it] =
           ([(k, it)], case as_int_or_none (return_to_seller_stock_count it) of
                          None \<Rightarrow> [] | Some val \<Rightarrow> [(k, val)])"
  using assms by (simp add: index_items_def index_step_def sku_str_of_def split: option.splits)

lemma find_snoc:
  "find P (xs @ [x]) = (case find P xs of Some y \<Rightarrow> Some y | None \<Rightarrow> if P x then Some x else None)"
  by (induction xs) auto

lemma index_items_snoc: "index_items (xs @ [x]) = index_step (index_items xs) x"
  by (simp add: index_items_def)

lemma fst_index_step:
  "fst (index_step (rep_item, returns_sum) it) =
     (case sku_str_of it of
        None \<Rightarrow> rep_item
      | Some s \<Rightarrow> if s \<noteq> [] \<and> map_of rep_item s = None then dict_set s it rep_item else rep_item)"
  by (simp add: index_step_def split: option.splits)

lemma rep_item_first:
  "map_of (fst (index_items items)) k =
     (if k = [] then None else find (\<lambda>it. sku_str_of it = Some k) items)"
proof (induction items arbitrary: k rule: rev_induct)
  case Nil
  show ?case by (simp add: index_items_def)
next
  case (snoc x xs)
  obtain rep ret where ix: "index_items xs = (rep, ret)" by (cases "index_items xs")
  have IH: "map_of rep s = (if s = [] then None else find (\<lambda>it. sku_str_of it = Some s) xs)" for s
    using snoc [of s] ix by simp
  show ?case
    by (cases "sku_str_of x")
      (auto simp: index_items_snoc ix fst_index_step find_snoc map_of_dict_set IH
        split: option.splits)
qed

lemma build_export_rows_map:
  "build_export_rows RU DESC skus items =
     map (export_row RU DESC (fst (index_items items)) (snd (index_items items))) skus"
  by (simp add: build_export_rows_def case_prod_unfold foldl_append_map Let_def)

text \<open>
  C6. The zero-as-blank policy of \<open>build_export_rows\<close> is per column. For an item that
  is the only one fetched for its SKU: a return count of 0 gives the empty string in the
  returns column (index 2), days without sales of 0 give the string \<open>0\<close> in its column
  (index 0), and the rate \<open>ads\<close> is printed in column 5 as the nearest decimal with two
  places, except that a rate which rounds to zero is printed as \<open>0\<close>.
\<close>

theorem zero_blank_per_column:
  assumes "st_sku it = Some v" and "py_str_sku v = k" and "k \<noteq> []"
  shows "length (build_export_rows RU DESC [k] [it]) = 1
    \<and> length (build_export_rows RU DESC [k] [it] ! 0) = 6
    \<and> (as_int_or_none (return_to_seller_stock_count it) = Some 0 \<longrightarrow>
          build_export_rows RU DESC [k] [it] ! 0 ! 2 = [])
    \<and> (as_int_or_none (days_without_sales it) = Some 0 \<longrightarrow>
          build_export_rows RU DESC [k] [it] ! 0 ! 0 = ''0'')
    \<and> (\<forall>a. as_float_or_none (ads it) = Some a \<longrightarrow>
          build_export_rows RU DESC [k] [it] ! 0 ! 5 =
            (let h = round_half_even (a * 100) in
             if h = 0 then ''0''
             else (if h < 0 then ''-'' else []) @ str_nat (nat \<bar>h\<bar> div 100) @ ''.''
                    @ [digit_char (nat \<bar>h\<bar> mod 100 div 10), digit_char (nat \<bar>h\<bar> mod 10)])
          \<and> \<bar>a * 100 - of_int (round_half_even (a * 100))\<bar> \<le> 1 / 2)"
proof -
  have row: "build_export_rows RU DESC [k] [it] =
      [export_row RU DESC [(k, it)]
         (case as_int_or_none (return_to_seller_stock_count it) of None \<Rightarrow> [] | Some val \<Rightarrow> [(k, val)]) k]"
    by (simp add: build_export_rows_def single_item_index [OF assms])
  have zero: "py_round2 a = 0 \<longleftrightarrow> round_half_even (a * 100) = 0" for a
    by (simp add: py_round2_def)
  have near: "\<bar>a * 100 - of_int (round_half_even (a * 100))\<bar> * 2 \<le> 1" for a
    using round_half_even_near [of "a * 100"] by simp
  show ?thesis
    unfolding row
    by (auto simp: export_row_def Let_def to_sheet_cell_def to_sheet_cell_blank_if_zero_def
        zero near format_2f_py_round2 str_int_def str_nat.simps digit_char_def)
qed

theorem zero_blank_per_column_witness:
  "build_export_rows Map.empty Map.empty [''12'']
     [\<lparr>st_sku = Some (SkuInt 12), return_to_seller_stock_count = Some (JInt 0),
       days_without_sales = Some (JInt 0), idc = Some (JFloat (7 / 2)),
       ads = Some (JFloat (1 / 250)), turnover_grade = None\<rparr>]
     = [[''0'', ''3'', [], [], [], ''0'']]
   \<and> build_export_rows Map.empty Map.empty [''12'']
     [\<lparr>st_sku = Some (SkuInt 12), return_to_seller_stock_count = Some (JInt 2),
       days_without_sales = Some (JInt 0), idc = None,
       ads = Some (JFloat (314159 / 100000)), turnover_grade = None\<rparr>]
     = [[''0'', [], ''2'', [], [], ''3.14'']]
   \<and> build_export_rows Map.empty Map.empty [''12'']
     [\<lparr>st_sku = Some (SkuInt 12), return_to_seller_stock_count = Some (JInt 0),
       days_without_sales = Some (JInt 0), idc = Some (JFloat (7 / 2)),
       ads = Some (JFloat (1 / 250)), turnover_grade = None\<rparr>] ! 0 ! 2 = []
   \<and> build_export_rows Map.empty Map.empty [''12'']
     [\<lparr>st_sku = Some (SkuInt 12), return_to_seller_stock_count = Some (JInt 0),
       days_without_sales = Some (JInt 0), idc = Some (JFloat (7 / 2)),
       ads = Some (JFloat (1 / 250)), turnover_grade = None\<rparr>] ! 0 ! 0 = ''0''"
proof -
  let ?it = "\<lparr>st_sku = Some (SkuInt 12), return_to_seller_stock_count = Some (JInt 0),
       days_without_sales = Some (JInt 0), idc = Some (JFloat (7 / 2)),
       ads = Some (JFloat (1 / 250)), turnover_grade = None\<rparr>"
  have e1: "build_export_rows Map.empty Map.empty [''12''] [?it] = [[''0'', ''3'', [], [], [], ''0'']]"
    by (simp add: build_export_rows_def index_items_def index_step_def sku_str_of_def
        export_row_def to_sheet_cell_def to_sheet_cell_blank_if_zero_def py_round2_def
        format_2f_def round_half_even_def grade_lookup_def empty_item_def str_int_def
        str_nat.simps digit_char_def Let_def)
  have e2: "build_export_rows Map.empty Map.empty [''12'']
     [\<lparr>st_sku = Some (SkuInt 12), return_to_seller_stock_count = Some (JInt 2),
       days_without_sales = Some (JInt 0), idc = None,
       ads = Some (JFloat (314159 / 100000)), turnover_grade = None\<rparr>]
     = [[''0'', [], ''2'', [], [], ''3.14'']]"
    by (simp add: build_export_rows_def index_items_def index_step_def sku_str_of_def
        export_row_def to_sheet_cell_def to_sheet_cell_blank_if_zero_def py_round2_def
        format_2f_def round_half_even_def grade_lookup_def empty_item_def str_int_def
        str_nat.simps digit_char_def Let_def)
  have h1: "st_sku ?it = Some (SkuInt 12)" by simp
  have h2: "py_str_sku (SkuInt 12) = ''12''"
    by (simp add: str_int_def str_nat.simps digit_char_def)
  have h3: "''12'' \<noteq> []" by simp
  have r: "as_int_or_none (return_to_seller_stock_count ?it) = Some 0" by simp
  have d: "as_int_or_none (days_without_sales ?it) = Some 0" by simp
  from zero_blank_per_column [OF h1 h2 h3, of Map.empty Map.empty] r d
  have "build_export_rows Map.empty Map.empty [''12''] [?it] ! 0 ! 2 = []
      \<and> build_export_rows Map.empty Map.empty [''12''] [?it] ! 0 ! 0 = ''0''"
    by blast
  with e1 e2 show ?thesis by blast
qed

section \<open>Properties of the price rows of 013.Price_logistic.py\<close>

lemma length_item_row: "length (item_row ops lit dq1_value item) = 24"
  by (simp add: item_row_def Let_def)

lemma prepare_data_for_sheet_map:
  "prepare_data_for_sheet ops lit data product_ids dq1_value =
     map (product_row ops lit dq1_value data) product_ids"
  by (simp add: prepare_data_for_sheet_def foldl_append_map)

lemma update_google_sheets_map:
  "update_google_sheets ops T items offer_ids =
     map (\<lambda>cell_text. turnover_row ops T (find (\<lambda>item. offer_id item = Some (strip cell_text)) items)) offer_ids"
  by (simp add: update_google_sheets_def foldl_append_map Let_def)

lemma find_app:
  "find P (xs @ ys) = (case find P xs of Some x \<Rightarrow> Some x | None \<Rightarrow> find P ys)"
  by (induction xs) auto

lemma store_items_snoc:
  "store_items d (its @ [item]) =
     (case item of
        None \<Rightarrow> store_items d its
      | Some it \<Rightarrow> (case pr_product_id it of
                     Some pid \<Rightarrow> dict_set pid (Some it) (store_items d its)
                   | None \<Rightarrow> store_items d its))"
  by (simp add: store_items_def split: option.splits)

lemma store_items_lookup:
  "map_of (store_items d its) k =
     (case find (\<lambda>it. pr_product_id it = Some k) (rev (valid_items its)) of
        Some it \<Rightarrow> Some (Some it)
      | None \<Rightarrow> map_of d k)"
proof (induction its rule: rev_induct)
  case Nil
  show ?case by (simp add: store_items_def valid_items_def)
next
  case (snoc item its)
  show ?case
  proof (cases item)
    case None
    with snoc show ?thesis by (simp add: store_items_snoc valid_items_def)
  next
    case (Some it)
    with snoc show ?thesis
      by (cases "pr_product_id it")
        (auto simp: store_items_snoc valid_items_def map_of_dict_set split: option.splits)
  qed
qed

lemma prices_loop_lookup:
  "map_of (foldl (\<lambda>all_prices (n, i).
                   case server n (take l (drop i product_ids)) of
                     RequestFailed \<Rightarrow> all_prices
                   | NoItemsKey \<Rightarrow> all_prices
                   | Items its \<Rightarrow> store_items all_prices its) d cs) k =
     (case find (\<lambda>it. pr_product_id it = Some k)
             (rev (concat (map (\<lambda>(n, i).
                case server n (take l (drop i product_ids)) of
                  RequestFailed \<Rightarrow> []
                | NoItemsKey \<Rightarrow> []
                | Items its \<Rightarrow> valid_items its) cs))) of
        Some it \<Rightarrow> Some (Some it)
      | None \<Rightarrow> map_of d k)"
proof (induction cs rule: rev_induct)
  case Nil
  show ?case by simp
next
  case (snoc c cs)
  obtain n i where c: "c = (n, i)" by (cases c)
  show ?case
    using snoc
    by (cases "server n (take l (drop i product_ids))")
      (auto simp: c find_app store_items_lookup split: option.splits)
qed

lemma get_ozon_prices_last:
  assumes "0 < limit"
  shows "\<exists>all_prices. get_ozon_prices server product_ids limit = Inr all_prices
     \<and> (\<forall>k. map_of all_prices k =
          (case find (\<lambda>it. pr_product_id it = Some k) (rev (fetched_items server product_ids limit)) of
             Some it \<Rightarrow> Some (Some it)
           | None \<Rightarrow> None))"
  using assms
  by (simp add: get_ozon_prices_def fetched_items_def prices_loop_lookup split: option.splits)

text \<open>
  C4. In 013.Price_logistic.py, with an item for product \<open>p\<close> only and the keys \<open>p\<close> and
  \<open>p + 1\<close>: the row of \<open>p\<close> has the 24 cells of the range \<open>ET:FQ\<close>, and the row of
  \<open>p + 1\<close>, which has no item, is the default row of 27 empty strings.
\<close>

theorem default_row_width:
  "prepare_data_for_sheet ops lit [(p, Some item)] [p, p + 1] dq1_value
     = [item_row ops lit dq1_value item, replicate 27 (SCell [])]
   \<and> length (item_row ops lit dq1_value item) = 24
   \<and> length (replicate 27 (SCell [] :: 'f pcell)) = 27
   \<and> range_width ''ET'' ''FQ'' = 24"
  by (simp add: prepare_data_for_sheet_def product_row_def length_item_row range_width_def
      column_number_def)

section \<open>Alignment of rows with keys, and duplicate items\<close>

text \<open>
  C2. The rows are in the order of the keys and there is one row per key: in
  \<open>prepare_data_for_sheet\<close> (013), \<open>build_export_rows\<close> (008) and \<open>update_google_sheet\<close>
  (006) the list of rows is the list of keys with each key replaced by its row, a function
  of the key and the fetched data only. This holds for every list of fetched items, in any
  order and with any duplicates.
\<close>

theorem rows_follow_keys:
  "prepare_data_for_sheet ops lit data product_ids dq1_value
     = map (product_row ops lit dq1_value data) product_ids
   \<and> length (prepare_data_for_sheet ops lit data product_ids dq1_value) = length product_ids
   \<and> build_export_rows RU DESC skus items
     = map (export_row RU DESC (fst (index_items items)) (snd (index_items items))) skus
   \<and> length (build_export_rows RU DESC skus items) = length skus
   \<and> update_google_sheet data_items pids
     = (map (\<lambda>pid. [sum_present ''fbo'' (stocks_of data_items pid)]) pids,
        map (\<lambda>pid. [sum_present ''fbs'' (stocks_of data_items pid)]) pids)
   \<and> length (fst (update_google_sheet data_items pids)) = length pids
   \<and> length (snd (update_google_sheet data_items pids)) = length pids"
  by (simp add: prepare_data_for_sheet_map build_export_rows_map update_google_sheet_map)

theorem rows_follow_keys_witness:
  "prepare_data_for_sheet real_ops plain_literals [(2, Some (bare_price_item 2 (3 / 2)))] [1, 2, 3] 0
     = [replicate 27 (SCell []),
        item_row real_ops plain_literals 0 (bare_price_item 2 (3 / 2)),
        replicate 27 (SCell [])]
   \<and> build_export_rows Map.empty Map.empty [''8'', ''7'', ''9'']
        [bare_stocks_item 7 4, bare_stocks_item 8 0, bare_stocks_item 7 5]
     = [[''0'', [], [], [], [], []], [''4'', [], [], [], [], []], [[], [], [], [], [], []]]"
proof -
  note t = rows_follow_keys [of real_ops plain_literals "[(2, Some (bare_price_item 2 (3 / 2)))]"
      "[1, 2, 3]" 0 Map.empty Map.empty "[''8'', ''7'', ''9'']"
      "[bare_stocks_item 7 4, bare_stocks_item 8 0, bare_stocks_item 7 5]" "[]" "[]"]
  have ix: "index_items [bare_stocks_item 7 4, bare_stocks_item 8 0, bare_stocks_item 7 5]
      = ([(''7'', bare_stocks_item 7 4), (''8'', bare_stocks_item 8 0)], [])"
    by (simp add: index_items_def index_step_def sku_str_of_def bare_stocks_item_def
        str_int_def str_nat.simps digit_char_def)
  have a: "prepare_data_for_sheet real_ops plain_literals [(2, Some (bare_price_item 2 (3 / 2)))] [1, 2, 3] 0
     = [replicate 27 (SCell []),
        item_row real_ops plain_literals 0 (bare_price_item 2 (3 / 2)),
        replicate 27 (SCell [])]"
    by (subst t [THEN conjunct1]) (simp add: product_row_def)
  have b: "build_export_rows Map.empty Map.empty [''8'', ''7'', ''9'']
        [bare_stocks_item 7 4, bare_stocks_item 8 0, bare_stocks_item 7 5]
     = [[''0'', [], [], [], [], []], [''4'', [], [], [], [], []], [[], [], [], [], [], []]]"
    by (subst t [THEN conjunct2, THEN conjunct2, THEN conjunct1], simp only: ix fst_conv snd_conv)
      (simp add: export_row_def to_sheet_cell_def to_sheet_cell_blank_if_zero_def
        grade_lookup_def empty_item_def bare_stocks_item_def str_int_def str_nat.simps
        digit_char_def Let_def)
  from a b show ?thesis by (rule conjI)
qed

text \<open>
  C3, as the code has it. The policy for duplicate items differs between the scripts.
  \<open>get_ozon_prices\<close> (013) is last-write-wins: its dict maps a product id to the last
  received item with that id, later chunks overwriting earlier ones.
  \<open>update_google_sheets\<close> (005) takes the first item whose \<open>offer_id\<close> is the key, and
  \<open>build_export_rows\<close> (008) keeps the first item of a SKU as its representative.
\<close>

theorem duplicate_policy_per_script:
  "(0 < limit \<longrightarrow>
      (\<exists>all_prices. get_ozon_prices server product_ids limit = Inr all_prices
         \<and> (\<forall>k. map_of all_prices k =
              (case find (\<lambda>it. pr_product_id it = Some k)
                      (rev (fetched_items server product_ids limit)) of
                 Some it \<Rightarrow> Some (Some it)
               | None \<Rightarrow> None))))
   \<and> update_google_sheets ops T t_items offer_ids
       = map (\<lambda>cell_text. turnover_row ops T
                 (find (\<lambda>item. offer_id item = Some (strip cell_text)) t_items)) offer_ids
   \<and> map_of (fst (index_items items)) k
       = (if k = [] then None else find (\<lambda>it. sku_str_of it = Some k) items)"
  using get_ozon_prices_last [of limit server product_ids]
  by (simp add: update_google_sheets_map rep_item_first)

theorem duplicate_policy_per_script_witness:
  "get_ozon_prices
     (\<lambda>n chunk. Items [Some (bare_price_item 5 1), None, Some (bare_price_item 5 2)]) [5] 1000
     = Inr [(5, Some (bare_price_item 5 2))]
   \<and> (\<exists>all_prices. get_ozon_prices
         (\<lambda>n chunk. Items [Some (bare_price_item 5 1), None, Some (bare_price_item 5 2)]) [5] 1000
         = Inr all_prices
       \<and> (\<forall>k. map_of all_prices k =
            (case find (\<lambda>it. pr_product_id it = Some k)
                    (rev (fetched_items
                       (\<lambda>n chunk. Items [Some (bare_price_item 5 1), None, Some (bare_price_item 5 2)])
                       [5] 1000)) of
               Some it \<Rightarrow> Some (Some it)
             | None \<Rightarrow> None)))"
proof -
  have e: "get_ozon_prices
     (\<lambda>n chunk. Items [Some (bare_price_item 5 1), None, Some (bare_price_item 5 2)]) [5] 1000
     = Inr [(5, Some (bare_price_item 5 2))]"
    by (simp add: get_ozon_prices_def store_items_def range_from.simps enumerate_eq_zip
        bare_price_item_def)
  have h: "(0::int) < 1000" by simp
  from duplicate_policy_per_script
    [of 1000 "\<lambda>n chunk. Items [Some (bare_price_item 5 1), None, Some (bare_price_item 5 2)]" "[5]"
      real_ops Map.empty "[] :: (nat, real) turnover_item list" "[]" "[]" "[]"] h
  have "\<exists>all_prices. get_ozon_prices
         (\<lambda>n chunk. Items [Some (bare_price_item 5 1), None, Some (bare_price_item 5 2)]) [5] 1000
         = Inr all_prices
       \<and> (\<forall>k. map_of all_prices k =
            (case find (\<lambda>it. pr_product_id it = Some k)
                    (rev (fetched_items
                       (\<lambda>n chunk. Items [Some (bare_price_item 5 1), None, Some (bare_price_item 5 2)])
                       [5] 1000)) of
               Some it \<Rightarrow> Some (Some it)
             | None \<Rightarrow> None))"
    by blast
  with e show ?thesis by (rule conjI)
qed

text \<open>
  C3, as stated, fails: with two fetched items of the same \<open>offer_id\<close>,
  \<open>update_google_sheets\<close> (005) writes the value of the first one, and
  \<open>build_export_rows\<close> (008) writes the days of the first item of the SKU.
\<close>

theorem last_write_wins_counterexample:
  "update_google_sheets real_ops Map.empty
     [bare_turnover_item ''A'' 1, bare_turnover_item ''A'' 2] [''A'']
     = [[TAds 1, TBlank, TBlank]]
   \<and> update_google_sheets real_ops Map.empty
     [bare_turnover_item ''A'' 1, bare_turnover_item ''A'' 2] [''A'']
     \<noteq> [[TAds 2, TBlank, TBlank]]
   \<and> build_export_rows Map.empty Map.empty [''7''] [bare_stocks_item 7 4, bare_stocks_item 7 5]
     = [[''4'', [], [], [], [], []]]"
  by (simp add: update_google_sheets_def turnover_row_def bare_turnover_item_def strip_def
      isspace_def build_export_rows_def index_items_def index_step_def sku_str_of_def
      export_row_def to_sheet_cell_def to_sheet_cell_blank_if_zero_def grade_lookup_def
      bare_stocks_item_def str_int_def str_nat.simps digit_char_def Let_def)

section \<open>Properties of the paginated fetch loops\<close>

lemma get_all_products_loop_series:
  "cursor_series server 1000 n last_id ps \<Longrightarrow>
     get_all_products_loop server n acc last_id = Some (Inr (acc @ concat (map fst ps)))"
proof (induction server "1000 :: int" n last_id ps arbitrary: acc rule: cursor_series.induct)
  case (1 server n last_id)
  then show ?case by simp
next
  case (2 server n last_id p)
  then show ?case by (subst get_all_products_loop.simps) auto
next
  case (3 server n last_id p q ps)
  then show ?case by (subst get_all_products_loop.simps) auto
qed

lemma api_get_all_products_loop_series:
  "cursor_series server limit n last_id ps \<Longrightarrow>
     api_get_all_products_loop server limit n acc last_id = Some (Inr (acc @ concat (map fst ps)))"
proof (induction server limit n last_id ps arbitrary: acc rule: cursor_series.induct)
  case (1 server limit n last_id)
  then show ?case by simp
next
  case (2 server limit n last_id p)
  then show ?case by (subst api_get_all_products_loop.simps) auto
next
  case (3 server limit n last_id p q ps)
  then show ?case by (subst api_get_all_products_loop.simps) auto
qed

lemma get_all_ozon_data_loop_follows:
  "follows server budget n offset outs \<Longrightarrow> int budget = max_retries - retry_count \<Longrightarrow>
     get_all_ozon_data_loop server max_retries n acc offset retry_count trace =
       Some (if ends_failed outs then Inl RequestException else Inr (acc @ served outs),
             trace @ events_of offset outs)"
proof (induction server budget n offset outs arbitrary: acc retry_count trace rule: follows.induct)
  case (1 server budget n offset)
  then show ?case by simp
next
  case (2 server budget n offset p)
  then show ?case by (subst get_all_ozon_data_loop.simps) (auto simp: ends_failed_def)
next
  case (3 server budget n offset)
  then show ?case by (subst get_all_ozon_data_loop.simps) (auto simp: ends_failed_def)
next
  case (4 server budget n offset p out outs)
  from 4(2) have s: "server n offset = Got p" "\<not> length p < 1000"
    and f: "follows server budget (n + 1) (offset + length p) (out # outs)" by simp_all
  from s have ne: "p \<noteq> []" by auto
  have "get_all_ozon_data_loop server max_retries (n + 1) (acc @ p) (offset + length p) retry_count
          (trace @ [Request offset, Sleep 65]) =
        Some (if ends_failed (out # outs) then Inl RequestException
              else Inr ((acc @ p) @ served (out # outs)),
              (trace @ [Request offset, Sleep 65]) @ events_of (offset + length p) (out # outs))"
    by (rule 4(1) [OF f 4(3)])
  then show ?case using s ne
    by (subst get_all_ozon_data_loop.simps) (simp add: ends_failed_def)
next
  case (5 server budget n offset out outs)
  from 5(2) have s: "server n offset = RequestError" "0 < budget"
    and f: "follows server (budget - 1) (n + 1) offset (out # outs)" by simp_all
  from s(2) 5(3) have b: "int (budget - 1) = max_retries - (retry_count + 1)" by simp
  from s(2) 5(3) have le: "\<not> retry_count + 1 > max_retries" by simp
  have "get_all_ozon_data_loop server max_retries (n + 1) acc offset (retry_count + 1)
          (trace @ [Request offset, Sleep 60]) =
        Some (if ends_failed (out # outs) then Inl RequestException
              else Inr (acc @ served (out # outs)),
              (trace @ [Request offset, Sleep 60]) @ events_of offset (out # outs))"
    by (rule 5(1) [OF f b])
  then show ?case using s le
    by (subst get_all_ozon_data_loop.simps) (simp add: ends_failed_def)
qed

lemma offset_series_follows:
  "offset_series server n offset ps \<Longrightarrow>
     follows server budget n offset (map Serves ps) \<and> served (map Serves ps) = concat ps
       \<and> \<not> ends_failed (map Serves ps)"
  by (induction server n offset ps rule: offset_series.induct) (auto simp: ends_failed_def)

lemma get_all_ozon_data_loop_series:
  "offset_series server n offset ps \<Longrightarrow>
     \<exists>trace'. get_all_ozon_data_loop server max_retries n acc offset retry_count trace =
       Some (Inr (acc @ concat ps), trace')"
proof (induction server n offset ps arbitrary: acc trace rule: offset_series.induct)
  case (1 server n offset)
  then show ?case by simp
next
  case (2 server n offset p)
  then show ?case by (subst get_all_ozon_data_loop.simps) auto
next
  case (3 server n offset p q ps)
  from 3(2) have s: "server n offset = Got p" "\<not> length p < 1000"
    and f: "offset_series server (n + 1) (offset + length p) (q # ps)" by simp_all
  from s have ne: "p \<noteq> []" by auto
  from 3(1) [OF f, of "acc @ p" "trace @ [Request offset, Sleep 65]"]
  obtain trace' where "get_all_ozon_data_loop server max_retries (n + 1) (acc @ p)
      (offset + length p) retry_count (trace @ [Request offset, Sleep 65])
      = Some (Inr ((acc @ p) @ concat (q # ps)), trace')" by blast
  then show ?case using s ne by (subst get_all_ozon_data_loop.simps) simp
qed

lemma follows_failures:
  "follows server budget n offset outs \<Longrightarrow>
     length (filter (\<lambda>out. out = Fails) outs) \<le> budget + 1
     \<and> (ends_failed outs \<longleftrightarrow> length (filter (\<lambda>out. out = Fails) outs) = budget + 1)
     \<and> length (filter (\<lambda>e. e = Sleep 60) (events_of offset outs)) \<le> budget"
proof (induction server budget n offset outs rule: follows.induct)
  case (5 server budget n offset out outs)
  from 5(2) have b: "0 < budget"
    and f: "follows server (budget - 1) (n + 1) offset (out # outs)" by simp_all
  from 5(1) [OF f] b have
    c: "length (filter (\<lambda>out. out = Fails) (out # outs)) \<le> budget"
    and e: "ends_failed (out # outs) \<longleftrightarrow> length (filter (\<lambda>out. out = Fails) (out # outs)) = budget"
    and z: "length (filter (\<lambda>e. e = Sleep 60) (events_of offset (out # outs))) \<le> budget - 1"
    by auto
  have ef: "ends_failed (Fails # out # outs) = ends_failed (out # outs)"
    by (simp add: ends_failed_def)
  have ev: "events_of offset (Fails # out # outs) = Request offset # Sleep 60 # events_of offset (out # outs)"
    by simp
  have fl: "length (filter (\<lambda>out. out = Fails) (Fails # out # outs))
      = Suc (length (filter (\<lambda>out. out = Fails) (out # outs)))" by simp
  show ?case unfolding ef ev fl using c e z b by auto
qed (auto simp: ends_failed_def)

text \<open>
  C1. For every finite series of pages the paginated fetch terminates and returns the
  concatenation of the items of all pages, in order: \<open>get_all_products\<close> of
  001.Product_offer_id.py and \<open>OzonAPIService.get_all_products\<close> for a cursor-paginated
  series (the last page is short or has an empty token), and \<open>get_all_ozon_data\<close> of
  005.FBO_Oborachivaemost.py for an offset-paginated series (the last page is empty or
  short, the offset grows by the number of items received).
\<close>

theorem fetch_all_returns_all_pages:
  "(cursor_series server 1000 0 [] ps \<longrightarrow>
      get_all_products server = Some (Inr (concat (map fst ps))))
   \<and> (cursor_series aserver limit 0 last_id aps \<longrightarrow>
      api_get_all_products aserver all_products last_id limit =
        Some (Inr ((case all_products of None \<Rightarrow> [] | Some given \<Rightarrow> given) @ concat (map fst aps))))
   \<and> (offset_series tserver 0 0 pages \<longrightarrow>
      (\<exists>events. get_all_ozon_data tserver max_retries = Some (Inr (concat pages), events)))"
proof (intro conjI impI)
  assume "cursor_series server 1000 0 [] ps"
  from get_all_products_loop_series [OF this, of "[]"]
  show "get_all_products server = Some (Inr (concat (map fst ps)))"
    by (simp add: get_all_products_def)
next
  assume "cursor_series aserver limit 0 last_id aps"
  from api_get_all_products_loop_series [OF this]
  show "api_get_all_products aserver all_products last_id limit =
        Some (Inr ((case all_products of None \<Rightarrow> [] | Some given \<Rightarrow> given) @ concat (map fst aps)))"
    by (simp add: api_get_all_products_def)
next
  assume "offset_series tserver 0 0 pages"
  from get_all_ozon_data_loop_series [OF this, of max_retries "[]" 0 "[]"]
  show "\<exists>events. get_all_ozon_data tserver max_retries = Some (Inr (concat pages), events)"
    by (simp add: get_all_ozon_data_def)
qed

theorem fetch_all_returns_all_pages_witness:
  "get_all_products
     (\<lambda>n last_id. if n = 0 \<and> last_id = [] then Page (replicate 1000 (1::nat)) ''c1''
                   else if n = 1 \<and> last_id = ''c1'' then Page [2, 3] ''c2'' else Raised)
     = Some (Inr (replicate 1000 1 @ [2, 3]))
   \<and> api_get_all_products
     (\<lambda>n last_id. if n = 0 \<and> last_id = [] then Page [1, 2 :: nat] ''a''
                   else if n = 1 \<and> last_id = ''a'' then Page [3, 4] [] else Raised)
     None [] 2
     = Some (Inr [1, 2, 3, 4])
   \<and> (\<exists>events. get_all_ozon_data
     (\<lambda>n offset. if n = 0 \<and> offset = 0 then Got (replicate 1000 (1::nat))
                  else if n = 1 \<and> offset = 1000 then Got [] else RequestError)
     3
     = Some (Inr (replicate 1000 1), events))"
proof -
  let ?s1 = "\<lambda>n last_id. if n = 0 \<and> last_id = [] then Page (replicate 1000 (1::nat)) ''c1''
                   else if n = 1 \<and> last_id = ''c1'' then Page [2, 3] ''c2'' else Raised"
  let ?s2 = "\<lambda>n last_id. if n = 0 \<and> last_id = [] then Page [1, 2 :: nat] ''a''
                   else if n = 1 \<and> last_id = ''a'' then Page [3, 4] [] else Raised"
  let ?s3 = "\<lambda>n offset. if n = 0 \<and> offset = 0 then Got (replicate 1000 (1::nat))
                  else if n = 1 \<and> offset = 1000 then Got [] else RequestError"
  note t = fetch_all_returns_all_pages [where server = ?s1
      and ps = "[(replicate 1000 1, ''c1''), ([2, 3], ''c2'')]"
      and aserver = ?s2 and limit = 2 and last_id = "[]"
      and aps = "[([1, 2], ''a''), ([3, 4], [])]" and all_products = None
      and tserver = ?s3 and pages = "[replicate 1000 1, []]" and max_retries = 3]
  have h1: "cursor_series ?s1 1000 0 [] [(replicate 1000 1, ''c1''), ([2, 3], ''c2'')]" by simp
  have h2: "cursor_series ?s2 2 0 [] [([1, 2], ''a''), ([3, 4], [])]" by simp
  have h3: "offset_series ?s3 0 0 [replicate 1000 1, []]" by simp
  from t [THEN conjunct1] h1
  have a: "get_all_products ?s1 = Some (Inr (replicate 1000 1 @ [2, 3]))" by simp
  from t [THEN conjunct2, THEN conjunct1] h2
  have b: "api_get_all_products ?s2 None [] 2 = Some (Inr [1, 2, 3, 4])" by simp
  from t [THEN conjunct2, THEN conjunct2] h3
  have c: "\<exists>events. get_all_ozon_data ?s3 3 = Some (Inr (replicate 1000 1), events)" by simp
  from a b c show ?thesis by (intro conjI)
qed

text \<open>
  C7, as the code has it. \<open>get_all_ozon_data\<close> counts the failed requests of the whole
  fetch in one counter that is never reset. While the counter does not exceed
  \<open>max_retries\<close> (3 by default) a failed request is followed by 60 seconds of sleep and a
  request at the same offset, with the collected items unchanged; the failure that takes
  the counter above \<open>max_retries\<close> raises the error. So a fetch makes at most
  \<open>max_retries\<close> retries, which is up to \<open>max_retries + 1\<close> attempts for one page, and a
  fetch that does not raise returns the items that the pages served hold, as a fetch
  without failures does.
\<close>

theorem retries_bounded_by_counter:
  assumes "follows server (nat max_retries) 0 0 outs" and "0 \<le> max_retries"
  shows "get_all_ozon_data server max_retries =
           Some (if ends_failed outs then Inl RequestException else Inr (served outs),
                 events_of 0 outs)
     \<and> length (filter (\<lambda>out. out = Fails) outs) \<le> nat max_retries + 1
     \<and> (ends_failed outs \<longleftrightarrow> length (filter (\<lambda>out. out = Fails) outs) = nat max_retries + 1)
     \<and> length (filter (\<lambda>e. e = Sleep 60) (events_of 0 outs)) \<le> nat max_retries"
proof -
  from assms(2) have b: "int (nat max_retries) = max_retries - 0" by simp
  from get_all_ozon_data_loop_follows [OF assms(1) b, of "[]" "[]"]
  have "get_all_ozon_data server max_retries =
           Some (if ends_failed outs then Inl RequestException else Inr (served outs),
                 events_of 0 outs)"
    by (simp add: get_all_ozon_data_def)
  with follows_failures [OF assms(1)] show ?thesis by blast
qed

theorem retries_bounded_by_counter_witness:
  "get_all_ozon_data
     (\<lambda>n offset. if n < 2 \<and> offset = 0 then RequestError
                  else if n = 2 \<and> offset = 0 then Got (replicate 1000 (1::nat))
                  else if n = 3 \<and> offset = 1000 then RequestError
                  else if n = 4 \<and> offset = 1000 then Got [2] else Got [])
     3
     = Some (Inr (replicate 1000 1 @ [2]),
             [Request 0, Sleep 60, Request 0, Sleep 60, Request 0, Sleep 65,
              Request 1000, Sleep 60, Request 1000])"
proof -
  let ?s = "\<lambda>n offset. if n < 2 \<and> offset = 0 then RequestError
                  else if n = 2 \<and> offset = 0 then Got (replicate 1000 (1::nat))
                  else if n = 3 \<and> offset = 1000 then RequestError
                  else if n = 4 \<and> offset = 1000 then Got [2] else Got []"
  have h: "follows ?s (nat 3) 0 0 [Fails, Fails, Serves (replicate 1000 1), Fails, Serves [2]]"
    by simp
  have p: "(0::int) \<le> 3" by simp
  from retries_bounded_by_counter [OF h p]
  show ?thesis by (simp add: ends_failed_def)
qed

text \<open>
  C7, as stated, fails: when the first three requests fail and the fourth is answered,
  \<open>get_all_ozon_data\<close> makes a fourth attempt and returns its page; the error is not
  raised after three attempts.
\<close>

theorem three_attempts_counterexample:
  "get_all_ozon_data (\<lambda>n offset. if n < 3 then RequestError else Got [7 :: nat]) 3
     = Some (Inr [7], [Request 0, Sleep 60, Request 0, Sleep 60, Request 0, Sleep 60, Request 0])"
  by (simp add: get_all_ozon_data_def get_all_ozon_data_loop.simps)

end
